theory Spec2Isabelle
  imports Main
begin

section \<open>The statistics registry of rspamd: \<open>src/libstat/stat_config.c\<close>\<close>

text \<open>
  The file owns one process-wide pointer, \<open>stat_ctx\<close>, four static descriptor tables,
  the bootstrap \<open>rspamd_stat_init\<close>, the teardown \<open>rspamd_stat_close\<close> and five
  accessors. The embedding keeps the C names. The value of the static pointer is a
  \<open>rspamd_stat_ctx option\<close> (\<open>None\<close> is \<open>NULL\<close>), passed to and returned from every
  function that reads or writes it. A failed \<open>g_assert\<close>, a read through a \<open>NULL\<close>
  context and an access to an array element that is out of range or already freed
  are values of the type \<open>fault\<close>. Calls through the function pointers of a descriptor
  are recorded, in order, in a list of \<open>call\<close>s that every operation returns.
\<close>

subsection \<open>Data\<close>

text \<open>An opaque non-\<open>NULL\<close> pointer handed out by a provider; \<open>NULL\<close> is \<open>None\<close>.\<close>

type_synonym gpointer = nat

datatype fault = Assertion_failed | Null_dereference | Out_of_bounds | Use_after_free

text \<open>
  Modelled from the spec: the configuration tree (libucl, whose sources are not among
  the files of this development). The options sub-tree is "arbitrary key/value, used
  here only for a nested \<open>cache.name\<close> string": an object is a list of keyed children,
  looking a key up in anything but an object gives \<open>NULL\<close>, and only a string node has
  a string value.
\<close>

datatype ucl_object =
    UCL_STRING string
  | UCL_INT int
  | UCL_OBJECT "(string \<times> ucl_object) list"

fun ucl_object_find_key :: "ucl_object \<Rightarrow> string \<Rightarrow> ucl_object option" where
  "ucl_object_find_key (UCL_OBJECT kvs) key = map_of kvs key"
| "ucl_object_find_key (UCL_STRING s) key = None"
| "ucl_object_find_key (UCL_INT i) key = None"

fun ucl_object_tostring :: "ucl_object \<Rightarrow> string option" where
  "ucl_object_tostring (UCL_STRING s) = Some s"
| "ucl_object_tostring (UCL_INT i) = None"
| "ucl_object_tostring (UCL_OBJECT kvs) = None"

text \<open>
  The configuration structures, with the fields the file reads. A \<open>const gchar *\<close>
  name is a \<open>string option\<close>. \<open>clf->tokenizer\<close> is dereferenced without a test at
  line 133, so the tokenizer reference is a value, not an optional one.
\<close>

record rspamd_tokenizer_config =
  tkc_name :: "string option"
  tkc_opts :: "ucl_object option"

record rspamd_statfile_config =
  symbol :: string

record rspamd_classifier_config =
  clf_statfiles :: "rspamd_statfile_config list"
  clf_classifier :: "string option"
  clf_tokenizer :: rspamd_tokenizer_config
  clf_backend :: "string option"
  clf_opts :: "ucl_object option"

record rspamd_config =
  cfg_classifiers :: "rspamd_classifier_config list"

text \<open>
  The four descriptor structures. Their function pointers cannot be fields here (their
  arguments are the structures defined below); a descriptor is its table entry, known
  by its name, and what its functions return is given by the record \<open>providers\<close>.
\<close>

record rspamd_stat_classifier =
  classifier_name :: string

record rspamd_stat_tokenizer =
  tokenizer_name :: string

record rspamd_stat_backend =
  backend_name :: string

record rspamd_stat_cache =
  cache_name :: string

text \<open>
  The runtime structures. \<open>cl->ctx\<close> always points to the one context and is left
  out. The back-reference \<open>st->classifier\<close> is the position that the classifier
  allocated in this iteration takes in \<open>stat_ctx->classifiers\<close>: the array is fresh at
  line 115 and the classifier is appended at line 192 of its own iteration.
  \<open>gint\<close> ids and \<open>guint\<close> lengths are natural numbers (the arrays stay far below
  \<open>2^31\<close> elements, where the two types agree).
\<close>

record rspamd_classifier =
  cl_cfg :: rspamd_classifier_config
  cl_statfiles_ids :: "nat list"
  cl_subrs :: "rspamd_stat_classifier option"
  cl_cache :: "rspamd_stat_cache option"
  cl_cachecf :: "gpointer option"

record rspamd_statfile =
  st_id :: nat
  st_stcf :: rspamd_statfile_config
  st_classifier :: nat
  st_backend :: rspamd_stat_backend
  st_bkcf :: "gpointer option"

record rspamd_stat_async_elt =
  cleanup :: "gpointer option"
  ud :: "gpointer option"

record rspamd_stat_ctx =
  backends_subrs :: "rspamd_stat_backend list"
  classifiers_subrs :: "rspamd_stat_classifier list"
  tokenizers_subrs :: "rspamd_stat_tokenizer list"
  caches_subrs :: "rspamd_stat_cache list"
  statfiles :: "rspamd_statfile list"
  classifiers :: "rspamd_classifier list"
  async_elts :: "rspamd_stat_async_elt list"
  ctx_cfg :: "rspamd_config option"
  tokenizer :: "rspamd_stat_tokenizer option"
  tkcf :: "gpointer option"
  ev_base :: "gpointer option"

text \<open>What \<open>g_slice_alloc0\<close> returns at line 102: every field zero.\<close>

definition zero_ctx :: rspamd_stat_ctx where
  "zero_ctx = \<lparr>backends_subrs = [], classifiers_subrs = [], tokenizers_subrs = [],
     caches_subrs = [], statfiles = [], classifiers = [], async_elts = [],
     ctx_cfg = None, tokenizer = None, tkcf = None, ev_base = None\<rparr>"

text \<open>
  The constants fixed when the file is compiled: the four \<open>RSPAMD_DEFAULT_*\<close> macros
  (defined in a header that is not among the files here, so they are parameters) and
  whether \<open>WITH_HIREDIS\<close> is defined.
\<close>

record build =
  RSPAMD_DEFAULT_CLASSIFIER :: string
  RSPAMD_DEFAULT_BACKEND :: string
  RSPAMD_DEFAULT_TOKENIZER :: string
  RSPAMD_DEFAULT_CACHE :: string
  WITH_HIREDIS :: bool

text \<open>
  One entry per call through a function pointer, with the arguments the claims speak
  about (and, for a backend initializer, what it returned). The initializer of a
  classifier algorithm returns nothing and fills state that is not among the fields
  here: its call is recorded and nothing else. The same holds for the close operation
  of a backend and for a cleanup callback, which are taken not to touch the context.
\<close>

datatype call =
    Tokenizer_get_config rspamd_stat_tokenizer rspamd_tokenizer_config
  | Classifier_init_func rspamd_stat_classifier rspamd_classifier
  | Cache_init rspamd_stat_cache "ucl_object option"
  | Backend_init rspamd_stat_backend rspamd_statfile "gpointer option"
  | Backend_close rspamd_stat_backend "gpointer option"
  | Async_cleanup gpointer rspamd_stat_async_elt

text \<open>
  Modelled from the spec: the providers behind the function pointers, which are
  implemented outside this file, by the contracts of section 6 of the spec:
  \<open>getConfig(pool, definition, extra) \<rightarrow> tokenizerConfig\<close> (a configuration, never
  absent), \<open>init(context, config, cacheOptions) \<rightarrow> cacheState\<close> and
  \<open>init(context, config, statfile) \<rightarrow> backendState|absent\<close>. They read the context and
  do not change it. The backend initializer reaches the classifier under construction
  through \<open>st->classifier\<close>; the model passes it as an argument. The last argument of
  each is the list of the calls made so far: what a provider returns may depend on what
  happened before, so two calls with the same arguments need not return the same.
\<close>

record providers =
  get_config :: "rspamd_stat_tokenizer \<Rightarrow> rspamd_tokenizer_config \<Rightarrow> call list \<Rightarrow> gpointer"
  cache_init :: "rspamd_stat_cache \<Rightarrow> rspamd_stat_ctx \<Rightarrow> rspamd_config \<Rightarrow>
    ucl_object option \<Rightarrow> call list \<Rightarrow> gpointer option"
  backend_init :: "rspamd_stat_backend \<Rightarrow> rspamd_stat_ctx \<Rightarrow> rspamd_config \<Rightarrow>
    rspamd_classifier \<Rightarrow> rspamd_statfile \<Rightarrow> call list \<Rightarrow> gpointer option"

subsection \<open>The descriptor tables (lines 34 to 87)\<close>

definition stat_classifiers :: "rspamd_stat_classifier list" where
  "stat_classifiers = [\<lparr>classifier_name = ''bayes''\<rparr>]"

definition stat_tokenizers :: "rspamd_stat_tokenizer list" where
  "stat_tokenizers = [\<lparr>tokenizer_name = ''osb-text''\<rparr>, \<lparr>tokenizer_name = ''osb''\<rparr>]"

definition stat_backends :: "build \<Rightarrow> rspamd_stat_backend list" where
  "stat_backends B =
     [\<lparr>backend_name = ''mmap''\<rparr>, \<lparr>backend_name = ''sqlite3''\<rparr>] @
     (if WITH_HIREDIS B then [\<lparr>backend_name = ''redis''\<rparr>] else [])"

definition stat_caches :: "build \<Rightarrow> rspamd_stat_cache list" where
  "stat_caches B = [\<lparr>cache_name = RSPAMD_DEFAULT_CACHE B\<rparr>]"

subsection \<open>The accessors (lines 249 to 325)\<close>

definition rspamd_stat_get_ctx :: "rspamd_stat_ctx option \<Rightarrow> rspamd_stat_ctx option" where
  "rspamd_stat_get_ctx stat_ctx = stat_ctx"

text \<open>
  The \<open>for\<close> loop shared by the four lookups: \<open>i\<close> runs from its start to the count of
  the table, and the first entry whose name \<open>strcmp\<close> finds equal is returned.
\<close>

function scan_subrs :: "('a \<Rightarrow> string) \<Rightarrow> 'a list \<Rightarrow> string \<Rightarrow> nat \<Rightarrow> 'a option" where
  "scan_subrs nm subrs name i =
     (if i < length subrs
      then (if name = nm (subrs ! i) then Some (subrs ! i)
            else scan_subrs nm subrs name (Suc i))
      else None)"
  by pat_completeness auto
termination
  by (relation "measure (\<lambda>(nm, subrs, name, i). length subrs - i)") auto

declare scan_subrs.simps [simp del]

text \<open>\<open>if (name == NULL || name[0] == '\0') name = DEFAULT;\<close>\<close>

definition name_or_default :: "string \<Rightarrow> string option \<Rightarrow> string" where
  "name_or_default dflt name =
     (case name of None \<Rightarrow> dflt | Some n \<Rightarrow> if n = [] then dflt else n)"

definition get_subr :: "('a \<Rightarrow> string) \<Rightarrow> 'a list \<Rightarrow> string \<Rightarrow> string option \<Rightarrow> 'a option" where
  "get_subr nm subrs dflt name = scan_subrs nm subrs (name_or_default dflt name) 0"

definition rspamd_stat_get_classifier ::
  "build \<Rightarrow> rspamd_stat_ctx option \<Rightarrow> string option \<Rightarrow> fault + rspamd_stat_classifier option" where
  "rspamd_stat_get_classifier B stat_ctx name =
     (case stat_ctx of
        None \<Rightarrow> Inl Null_dereference
      | Some c \<Rightarrow> Inr (get_subr classifier_name (classifiers_subrs c)
                        (RSPAMD_DEFAULT_CLASSIFIER B) name))"

definition rspamd_stat_get_backend ::
  "build \<Rightarrow> rspamd_stat_ctx option \<Rightarrow> string option \<Rightarrow> fault + rspamd_stat_backend option" where
  "rspamd_stat_get_backend B stat_ctx name =
     (case stat_ctx of
        None \<Rightarrow> Inl Null_dereference
      | Some c \<Rightarrow> Inr (get_subr backend_name (backends_subrs c)
                        (RSPAMD_DEFAULT_BACKEND B) name))"

definition rspamd_stat_get_tokenizer ::
  "build \<Rightarrow> rspamd_stat_ctx option \<Rightarrow> string option \<Rightarrow> fault + rspamd_stat_tokenizer option" where
  "rspamd_stat_get_tokenizer B stat_ctx name =
     (case stat_ctx of
        None \<Rightarrow> Inl Null_dereference
      | Some c \<Rightarrow> Inr (get_subr tokenizer_name (tokenizers_subrs c)
                        (RSPAMD_DEFAULT_TOKENIZER B) name))"

definition rspamd_stat_get_cache ::
  "build \<Rightarrow> rspamd_stat_ctx option \<Rightarrow> string option \<Rightarrow> fault + rspamd_stat_cache option" where
  "rspamd_stat_get_cache B stat_ctx name =
     (case stat_ctx of
        None \<Rightarrow> Inl Null_dereference
      | Some c \<Rightarrow> Inr (get_subr cache_name (caches_subrs c)
                        (RSPAMD_DEFAULT_CACHE B) name))"

subsection \<open>Bootstrap: \<open>rspamd_stat_init\<close> (lines 89 to 196)\<close>

definition bind_fault :: "fault + 'a \<Rightarrow> ('a \<Rightarrow> fault + 'b) \<Rightarrow> fault + 'b" where
  "bind_fault m f = (case m of Inl e \<Rightarrow> Inl e | Inr x \<Rightarrow> f x)"

text \<open>
  \<open>g_assert (p != NULL)\<close> on the result of an accessor: a failed assertion aborts the
  process (assertions are compiled in, as GLib does unless told otherwise).
\<close>

definition g_assert_nonnull :: "fault + 'a option \<Rightarrow> fault + 'a" where
  "g_assert_nonnull r =
     (case r of Inl e \<Rightarrow> Inl e | Inr None \<Rightarrow> Inl Assertion_failed | Inr (Some x) \<Rightarrow> Inr x)"

text \<open>Lines 132 to 137: the tokenizer of the context is resolved while \<open>tkcf\<close> is \<open>NULL\<close>.\<close>

definition init_tokenizer ::
  "build \<Rightarrow> providers \<Rightarrow> rspamd_classifier_config \<Rightarrow> rspamd_stat_ctx \<times> call list \<Rightarrow>
   fault + (rspamd_stat_ctx \<times> call list)" where
  "init_tokenizer B P clf s =
     (case s of (ctx, tr) \<Rightarrow>
        if tkcf ctx = None
        then bind_fault
               (g_assert_nonnull
                  (rspamd_stat_get_tokenizer B (Some ctx) (tkc_name (clf_tokenizer clf))))
               (\<lambda>tk. Inr (ctx\<lparr>tokenizer := Some tk,
                                tkcf := Some (get_config P tk (clf_tokenizer clf) tr)\<rparr>,
                           tr @ [Tokenizer_get_config tk (clf_tokenizer clf)]))
        else Inr (ctx, tr))"

text \<open>
  Lines 148 to 159. \<open>cache_obj\<close> and \<open>cache_name\<close> are declared once, before the loop over
  the classifiers (lines 98 and 99): the pair is carried from one iteration to the
  next and changed only by the assignments below.
\<close>

definition find_cache ::
  "rspamd_classifier_config \<Rightarrow> ucl_object option \<times> string option \<Rightarrow>
   ucl_object option \<times> string option" where
  "find_cache clf loc =
     (case loc of (cache_obj, cache_name_var) \<Rightarrow>
        (case clf_opts clf of
           None \<Rightarrow> (cache_obj, cache_name_var)
         | Some opts \<Rightarrow>
             (let cache_obj = ucl_object_find_key opts ''cache'';
                  cache_name_obj =
                    (case cache_obj of None \<Rightarrow> None
                     | Some co \<Rightarrow> ucl_object_find_key co ''name'')
              in (cache_obj,
                  (case cache_name_obj of None \<Rightarrow> cache_name_var
                   | Some cn \<Rightarrow> ucl_object_tostring cn)))))"

text \<open>Lines 165 to 190: the loop over the statfile definitions of one classifier.\<close>

fun init_statfiles ::
  "providers \<Rightarrow> rspamd_config \<Rightarrow> rspamd_stat_backend \<Rightarrow> rspamd_statfile_config list \<Rightarrow>
   rspamd_stat_ctx \<times> rspamd_classifier \<times> call list \<Rightarrow>
   rspamd_stat_ctx \<times> rspamd_classifier \<times> call list" where
  "init_statfiles P cfg bk [] s = s"
| "init_statfiles P cfg bk (stf # curst) (ctx, cl, tr) =
     (let st = \<lparr>st_id = 0, st_stcf = stf, st_classifier = length (classifiers ctx),
                st_backend = bk, st_bkcf = None\<rparr>;
          bkcf = backend_init P bk ctx cfg cl st tr;
          tr = tr @ [Backend_init bk st bkcf]
      in if bkcf = None
         then init_statfiles P cfg bk curst (ctx, cl, tr)
         else (let st = st\<lparr>st_bkcf := bkcf, st_id := length (statfiles ctx)\<rparr>
               in init_statfiles P cfg bk curst
                    (ctx\<lparr>statfiles := statfiles ctx @ [st]\<rparr>,
                     cl\<lparr>cl_statfiles_ids := cl_statfiles_ids cl @ [st_id st]\<rparr>,
                     tr)))"

text \<open>Lines 124 to 192: one iteration of the loop over the classifier definitions.\<close>

definition init_classifier ::
  "build \<Rightarrow> providers \<Rightarrow> rspamd_config \<Rightarrow> rspamd_classifier_config \<Rightarrow>
   (ucl_object option \<times> string option) \<times> rspamd_stat_ctx \<times> call list \<Rightarrow>
   fault + ((ucl_object option \<times> string option) \<times> rspamd_stat_ctx \<times> call list)" where
  "init_classifier B P cfg clf s =
     (case s of (loc, ctx, tr) \<Rightarrow>
        bind_fault (g_assert_nonnull (rspamd_stat_get_backend B (Some ctx) (clf_backend clf)))
        (\<lambda>bk. bind_fault (init_tokenizer B P clf (ctx, tr))
        (\<lambda>(ctx, tr). bind_fault
           (g_assert_nonnull (rspamd_stat_get_classifier B (Some ctx) (clf_classifier clf)))
        (\<lambda>subrs.
           let cl = \<lparr>cl_cfg = clf, cl_statfiles_ids = [], cl_subrs = Some subrs,
                     cl_cache = None, cl_cachecf = None\<rparr>;
               tr = tr @ [Classifier_init_func subrs cl];
               loc = find_cache clf loc
           in bind_fault (g_assert_nonnull (rspamd_stat_get_cache B (Some ctx) (snd loc)))
        (\<lambda>cache.
           let cl = cl\<lparr>cl_cache := Some cache,
                       cl_cachecf := cache_init P cache ctx cfg (fst loc) tr\<rparr>;
               tr = tr @ [Cache_init cache (fst loc)]
           in (case init_statfiles P cfg bk (clf_statfiles clf) (ctx, cl, tr) of
                 (ctx, cl, tr) \<Rightarrow>
                   Inr (loc, ctx\<lparr>classifiers := classifiers ctx @ [cl]\<rparr>, tr)))))))"

fun init_classifiers ::
  "build \<Rightarrow> providers \<Rightarrow> rspamd_config \<Rightarrow> rspamd_classifier_config list \<Rightarrow>
   (ucl_object option \<times> string option) \<times> rspamd_stat_ctx \<times> call list \<Rightarrow>
   fault + ((ucl_object option \<times> string option) \<times> rspamd_stat_ctx \<times> call list)" where
  "init_classifiers B P cfg [] s = Inr s"
| "init_classifiers B P cfg (clf # cur) s =
     bind_fault (init_classifier B P cfg clf s) (init_classifiers B P cfg cur)"

text \<open>Lines 101 to 117: the context is allocated if there is none, then filled.\<close>

definition prepare_ctx ::
  "build \<Rightarrow> rspamd_config \<Rightarrow> gpointer option \<Rightarrow> rspamd_stat_ctx option \<Rightarrow> rspamd_stat_ctx" where
  "prepare_ctx B cfg evb stat_ctx =
     (case stat_ctx of None \<Rightarrow> zero_ctx | Some c \<Rightarrow> c)
       \<lparr>backends_subrs := stat_backends B,
        classifiers_subrs := stat_classifiers,
        tokenizers_subrs := stat_tokenizers,
        caches_subrs := stat_caches B,
        ctx_cfg := Some cfg,
        statfiles := [],
        classifiers := [],
        async_elts := [],
        ev_base := evb\<rparr>"

definition rspamd_stat_init ::
  "build \<Rightarrow> providers \<Rightarrow> rspamd_config \<Rightarrow> gpointer option \<Rightarrow> rspamd_stat_ctx option \<Rightarrow>
   fault + (rspamd_stat_ctx option \<times> call list)" where
  "rspamd_stat_init B P cfg evb stat_ctx =
     bind_fault
       (init_classifiers B P cfg (cfg_classifiers cfg)
          ((None, None), prepare_ctx B cfg evb stat_ctx, []))
       (\<lambda>(loc, ctx, tr). Inr (Some ctx, tr))"

subsection \<open>Teardown: \<open>rspamd_stat_close\<close> (lines 198 to 247)\<close>

text \<open>
  Lines 215 to 221. The statfile is read from the array at the stored id, closed and
  freed. The ids of the statfiles freed so far are carried along: reading a statfile
  again after \<open>g_slice_free1\<close> is a fault, as reading past the end of the array is.
\<close>

fun close_statfiles ::
  "rspamd_stat_ctx \<Rightarrow> nat list \<Rightarrow> nat list \<times> call list \<Rightarrow> fault + (nat list \<times> call list)" where
  "close_statfiles st_ctx [] s = Inr s"
| "close_statfiles st_ctx (i # ids) (freed, tr) =
     (if \<not> i < length (statfiles st_ctx) then Inl Out_of_bounds
      else if i \<in> set freed then Inl Use_after_free
      else (let st = statfiles st_ctx ! i
            in close_statfiles st_ctx ids
                 (i # freed, tr @ [Backend_close (st_backend st) (st_bkcf st)])))"

text \<open>Lines 212 to 225.\<close>

fun close_classifiers ::
  "rspamd_stat_ctx \<Rightarrow> rspamd_classifier list \<Rightarrow> nat list \<times> call list \<Rightarrow>
   fault + (nat list \<times> call list)" where
  "close_classifiers st_ctx [] s = Inr s"
| "close_classifiers st_ctx (cl # cls) s =
     bind_fault (close_statfiles st_ctx (cl_statfiles_ids cl) s) (close_classifiers st_ctx cls)"

text \<open>Lines 227 to 237: the queue is walked from its head.\<close>

fun cleanup_async_elts :: "rspamd_stat_async_elt list \<Rightarrow> call list \<Rightarrow> call list" where
  "cleanup_async_elts [] tr = tr"
| "cleanup_async_elts (aelt # cur) tr =
     (case cleanup aelt of
        Some f \<Rightarrow> cleanup_async_elts cur (tr @ [Async_cleanup f aelt])
      | None \<Rightarrow> cleanup_async_elts cur tr)"

definition rspamd_stat_close ::
  "rspamd_stat_ctx option \<Rightarrow> fault + (rspamd_stat_ctx option \<times> call list)" where
  "rspamd_stat_close stat_ctx =
     (case rspamd_stat_get_ctx stat_ctx of
        None \<Rightarrow> Inl Assertion_failed
      | Some st_ctx \<Rightarrow>
          bind_fault (close_classifiers st_ctx (classifiers st_ctx) ([], []))
            (\<lambda>(freed, tr). Inr (None, cleanup_async_elts (async_elts st_ctx) tr)))"

subsection \<open>Reading the list of calls\<close>

text \<open>
  The entries of one kind, in the order of the calls: the arguments of the cache
  initializers, the statfile given to each backend initializer with what it returned,
  the backend and state of each close, the callback and element of each cleanup, and
  the tokenizer and definition of each configuration builder.
\<close>

fun cache_inits :: "call list \<Rightarrow> (rspamd_stat_cache \<times> ucl_object option) list" where
  "cache_inits [] = []"
| "cache_inits (Cache_init ca obj # tr) = (ca, obj) # cache_inits tr"
| "cache_inits (c # tr) = cache_inits tr"

fun backend_inits :: "call list \<Rightarrow> (rspamd_statfile \<times> gpointer option) list" where
  "backend_inits [] = []"
| "backend_inits (Backend_init bk st r # tr) = (st, r) # backend_inits tr"
| "backend_inits (c # tr) = backend_inits tr"

fun backend_closes :: "call list \<Rightarrow> (rspamd_stat_backend \<times> gpointer option) list" where
  "backend_closes [] = []"
| "backend_closes (Backend_close bk p # tr) = (bk, p) # backend_closes tr"
| "backend_closes (c # tr) = backend_closes tr"

fun async_cleanups :: "call list \<Rightarrow> (gpointer \<times> rspamd_stat_async_elt) list" where
  "async_cleanups [] = []"
| "async_cleanups (Async_cleanup f aelt # tr) = (f, aelt) # async_cleanups tr"
| "async_cleanups (c # tr) = async_cleanups tr"

fun tokenizer_get_configs :: "call list \<Rightarrow> (rspamd_stat_tokenizer \<times> rspamd_tokenizer_config) list" where
  "tokenizer_get_configs [] = []"
| "tokenizer_get_configs (Tokenizer_get_config tk tc # tr) = (tk, tc) # tokenizer_get_configs tr"
| "tokenizer_get_configs (c # tr) = tokenizer_get_configs tr"

subsection \<open>The cache a classifier definition names\<close>

text \<open>
  What a definition carries in its own options: the \<open>cache\<close> sub-tree, the \<open>name\<close> node
  below it, and the string of that node. They are read from the definition alone, not
  from the variables of the loop.
\<close>

definition clf_cache_obj :: "rspamd_classifier_config \<Rightarrow> ucl_object option" where
  "clf_cache_obj clf =
     (case clf_opts clf of None \<Rightarrow> None | Some opts \<Rightarrow> ucl_object_find_key opts ''cache'')"

definition clf_cache_name_obj :: "rspamd_classifier_config \<Rightarrow> ucl_object option" where
  "clf_cache_name_obj clf =
     (case clf_cache_obj clf of None \<Rightarrow> None | Some co \<Rightarrow> ucl_object_find_key co ''name'')"

definition clf_cache_name :: "rspamd_classifier_config \<Rightarrow> string option" where
  "clf_cache_name clf =
     (case clf_cache_name_obj clf of None \<Rightarrow> None | Some cn \<Rightarrow> ucl_object_tostring cn)"

subsection \<open>Names that resolve\<close>

text \<open>
  The names of a classifier definition that every iteration resolves (backend,
  algorithm, and the cache name of its own options) each have an entry in the static
  table of their kind; and, for a configuration, the tokenizer needed by its first
  definition can be had: one is already held by the context at entry, or the name in
  the tokenizer reference of the first definition has an entry.
\<close>

definition names_resolve :: "build \<Rightarrow> rspamd_classifier_config \<Rightarrow> bool" where
  "names_resolve B clf =
     (get_subr backend_name (stat_backends B) (RSPAMD_DEFAULT_BACKEND B)
        (clf_backend clf) \<noteq> None \<and>
      get_subr classifier_name stat_classifiers (RSPAMD_DEFAULT_CLASSIFIER B)
        (clf_classifier clf) \<noteq> None \<and>
      get_subr cache_name (stat_caches B) (RSPAMD_DEFAULT_CACHE B)
        (clf_cache_name clf) \<noteq> None)"

definition tokenizer_resolves :: "build \<Rightarrow> rspamd_stat_ctx option \<Rightarrow> rspamd_config \<Rightarrow> bool" where
  "tokenizer_resolves B g cfg =
     (case cfg_classifiers cfg of
        [] \<Rightarrow> True
      | clf # rest \<Rightarrow>
          (case g of None \<Rightarrow> False | Some c0 \<Rightarrow> tkcf c0 \<noteq> None) \<or>
          get_subr tokenizer_name stat_tokenizers (RSPAMD_DEFAULT_TOKENIZER B)
            (tkc_name (clf_tokenizer clf)) \<noteq> None)"

subsection \<open>The object graph built by the bootstrap\<close>

text \<open>
  The facts that hold of the context and of the calls made so far after every
  iteration of the loop over the classifiers: ids are positions; the owned ids of the
  classifiers, one after the other, are all the positions; an owned id is in range and
  the statfile there refers back to its owner; the statfiles are the statfiles handed
  to the backend initializers that returned a state, with that state; every backend
  initializer was called for a classifier of the collection, and those called for one
  classifier got its statfile definitions in order; a classifier owns the statfiles
  that refer back to it.
\<close>

definition boot_inv :: "rspamd_stat_ctx \<Rightarrow> call list \<Rightarrow> bool" where
  "boot_inv ctx tr =
     (map st_id (statfiles ctx) = [0..<length (statfiles ctx)] \<and>
      concat (map cl_statfiles_ids (classifiers ctx)) = [0..<length (statfiles ctx)] \<and>
      (\<forall>i<length (classifiers ctx). \<forall>n\<in>set (cl_statfiles_ids (classifiers ctx ! i)).
         n < length (statfiles ctx) \<and> st_classifier (statfiles ctx ! n) = i) \<and>
      map (\<lambda>st. st\<lparr>st_id := 0\<rparr>) (statfiles ctx) =
        map (\<lambda>(st, r). st\<lparr>st_bkcf := r\<rparr>) (filter (\<lambda>(st, r). r \<noteq> None) (backend_inits tr)) \<and>
      (\<forall>(st, r)\<in>set (backend_inits tr). st_classifier st < length (classifiers ctx)) \<and>
      (\<forall>i<length (classifiers ctx).
         map (\<lambda>(st, r). st_stcf st)
           (filter (\<lambda>(st, r). st_classifier st = i) (backend_inits tr)) =
         clf_statfiles (cl_cfg (classifiers ctx ! i))) \<and>
      (\<forall>st\<in>set (statfiles ctx). st_classifier st < length (classifiers ctx)) \<and>
      (\<forall>i<length (classifiers ctx).
         map (\<lambda>n. statfiles ctx ! n) (cl_statfiles_ids (classifiers ctx ! i)) =
         filter (\<lambda>st. st_classifier st = i) (statfiles ctx)))"

subsection \<open>Example configurations\<close>

text \<open>
  A build with the default names of the distribution and without the redis backend,
  and providers whose backend initializer fails for the symbol \<open>BAYES_HAM\<close> (\<open>P0\<close>)
  or never fails (\<open>P1\<close>, and \<open>P2\<close>, which hands out other states). Of the classifier definitions, \<open>clf_a\<close> names its cache,
  \<open>clf_b\<close> has options without a \<open>cache\<close> entry and leaves backend and algorithm to
  the defaults, \<open>clf_c\<close> and \<open>clf_e\<close> have no options at all, \<open>clf_d\<close> has a \<open>cache\<close>
  sub-tree without a \<open>name\<close>, and \<open>clf_redis\<close>, \<open>clf_svm\<close> and \<open>clf_memcached\<close> name
  a backend, an algorithm and a cache that are not in the tables. \<open>ctx_ab\<close> and
  \<open>calls_ab\<close> are the context and the calls of the bootstrap of \<open>[clf_a, clf_b]\<close>,
  \<open>ctx_d\<close> and \<open>calls_d\<close> those of \<open>[clf_d]\<close>; \<open>queue_ab\<close> is a cleanup queue whose
  second element has no callback. \<open>ctx_b2\<close> and \<open>calls_b2\<close> are the context and the
  calls of a second bootstrap, of \<open>[clf_b]\<close> with \<open>P2\<close>, in the process that holds
  \<open>ctx_ab\<close>, and \<open>closes_b2\<close> the calls of the teardown after it.
\<close>

definition B0 :: build where
  "B0 = \<lparr>RSPAMD_DEFAULT_CLASSIFIER = ''bayes'', RSPAMD_DEFAULT_BACKEND = ''mmap'',
          RSPAMD_DEFAULT_TOKENIZER = ''osb'', RSPAMD_DEFAULT_CACHE = ''sqlite3'',
          WITH_HIREDIS = False\<rparr>"

definition P0 :: providers where
  "P0 = \<lparr>get_config = (\<lambda>tk tc tr. 7),
          cache_init = (\<lambda>ca ctx cfg obj tr. Some 9),
          backend_init = (\<lambda>bk ctx cfg cl st tr.
             if symbol (st_stcf st) = ''BAYES_HAM'' then None
             else Some (100 + length (statfiles ctx)))\<rparr>"

definition P1 :: providers where
  "P1 = P0\<lparr>backend_init := (\<lambda>bk ctx cfg cl st tr. Some (100 + length (statfiles ctx)))\<rparr>"

definition cache_a :: ucl_object where
  "cache_a = UCL_OBJECT [(''name'', UCL_STRING ''sqlite3''), (''path'', UCL_STRING ''/tmp/a'')]"

definition clf_a :: rspamd_classifier_config where
  "clf_a = \<lparr>clf_statfiles = [\<lparr>symbol = ''BAYES_SPAM''\<rparr>, \<lparr>symbol = ''BAYES_HAM''\<rparr>],
     clf_classifier = Some ''bayes'',
     clf_tokenizer = \<lparr>tkc_name = Some ''osb'', tkc_opts = None\<rparr>,
     clf_backend = Some ''mmap'',
     clf_opts = Some (UCL_OBJECT [(''cache'', cache_a)])\<rparr>"

definition clf_b :: rspamd_classifier_config where
  "clf_b = \<lparr>clf_statfiles = [\<lparr>symbol = ''B_SPAM''\<rparr>, \<lparr>symbol = ''B_HAM''\<rparr>],
     clf_classifier = Some [],
     clf_tokenizer = \<lparr>tkc_name = Some ''osb-text'', tkc_opts = None\<rparr>,
     clf_backend = None,
     clf_opts = Some (UCL_OBJECT [(''min_tokens'', UCL_INT 10)])\<rparr>"

definition clf_c :: rspamd_classifier_config where
  "clf_c = clf_b\<lparr>clf_opts := None\<rparr>"

definition cache_d :: ucl_object where
  "cache_d = UCL_OBJECT [(''path'', UCL_STRING ''/tmp/d'')]"

definition clf_d :: rspamd_classifier_config where
  "clf_d = \<lparr>clf_statfiles = [\<lparr>symbol = ''D_SPAM''\<rparr>],
     clf_classifier = None,
     clf_tokenizer = \<lparr>tkc_name = None, tkc_opts = None\<rparr>,
     clf_backend = Some ''sqlite3'',
     clf_opts = Some (UCL_OBJECT [(''cache'', cache_d)])\<rparr>"

definition clf_redis :: rspamd_classifier_config where
  "clf_redis = clf_b\<lparr>clf_backend := Some ''redis''\<rparr>"

definition clf_svm :: rspamd_classifier_config where
  "clf_svm = clf_b\<lparr>clf_classifier := Some ''svm''\<rparr>"

definition clf_memcached :: rspamd_classifier_config where
  "clf_memcached =
     clf_b\<lparr>clf_opts := Some (UCL_OBJECT [(''cache'', UCL_OBJECT [(''name'', UCL_STRING ''memcached'')])])\<rparr>"

definition clf_e :: rspamd_classifier_config where
  "clf_e = clf_a\<lparr>clf_opts := None\<rparr>"

definition cfg_ab :: rspamd_config where
  "cfg_ab = \<lparr>cfg_classifiers = [clf_a, clf_b]\<rparr>"

definition cfg_ac :: rspamd_config where
  "cfg_ac = \<lparr>cfg_classifiers = [clf_a, clf_c]\<rparr>"

definition cfg_b :: rspamd_config where
  "cfg_b = \<lparr>cfg_classifiers = [clf_b]\<rparr>"

definition cfg_d :: rspamd_config where
  "cfg_d = \<lparr>cfg_classifiers = [clf_d]\<rparr>"

definition cfg_redis :: rspamd_config where
  "cfg_redis = \<lparr>cfg_classifiers = [clf_a, clf_redis]\<rparr>"

definition cfg_svm :: rspamd_config where
  "cfg_svm = \<lparr>cfg_classifiers = [clf_a, clf_svm]\<rparr>"

definition cfg_memcached :: rspamd_config where
  "cfg_memcached = \<lparr>cfg_classifiers = [clf_a, clf_memcached, clf_b]\<rparr>"

definition cfg_e :: rspamd_config where
  "cfg_e = \<lparr>cfg_classifiers = [clf_e]\<rparr>"

definition mmap :: rspamd_stat_backend where
  "mmap = \<lparr>backend_name = ''mmap''\<rparr>"

definition new_st :: "string \<Rightarrow> nat \<Rightarrow> rspamd_statfile" where
  "new_st sy k = \<lparr>st_id = 0, st_stcf = \<lparr>symbol = sy\<rparr>, st_classifier = k,
     st_backend = mmap, st_bkcf = None\<rparr>"

definition new_cl :: "rspamd_classifier_config \<Rightarrow> rspamd_classifier" where
  "new_cl clf = \<lparr>cl_cfg = clf, cl_statfiles_ids = [],
     cl_subrs = Some \<lparr>classifier_name = ''bayes''\<rparr>, cl_cache = None, cl_cachecf = None\<rparr>"

definition statfiles_ab :: "rspamd_statfile list" where
  "statfiles_ab =
     [\<lparr>st_id = 0, st_stcf = \<lparr>symbol = ''BAYES_SPAM''\<rparr>, st_classifier = 0,
       st_backend = mmap, st_bkcf = Some 100\<rparr>,
      \<lparr>st_id = 1, st_stcf = \<lparr>symbol = ''B_SPAM''\<rparr>, st_classifier = 1,
       st_backend = mmap, st_bkcf = Some 101\<rparr>,
      \<lparr>st_id = 2, st_stcf = \<lparr>symbol = ''B_HAM''\<rparr>, st_classifier = 1,
       st_backend = mmap, st_bkcf = Some 102\<rparr>]"

definition classifiers_ab :: "rspamd_classifier list" where
  "classifiers_ab =
     [\<lparr>cl_cfg = clf_a, cl_statfiles_ids = [0],
       cl_subrs = Some \<lparr>classifier_name = ''bayes''\<rparr>,
       cl_cache = Some \<lparr>cache_name = ''sqlite3''\<rparr>, cl_cachecf = Some 9\<rparr>,
      \<lparr>cl_cfg = clf_b, cl_statfiles_ids = [1, 2],
       cl_subrs = Some \<lparr>classifier_name = ''bayes''\<rparr>,
       cl_cache = Some \<lparr>cache_name = ''sqlite3''\<rparr>, cl_cachecf = Some 9\<rparr>]"

definition ctx_ab :: rspamd_stat_ctx where
  "ctx_ab = \<lparr>backends_subrs = stat_backends B0, classifiers_subrs = stat_classifiers,
     tokenizers_subrs = stat_tokenizers, caches_subrs = stat_caches B0,
     statfiles = statfiles_ab, classifiers = classifiers_ab, async_elts = [],
     ctx_cfg = Some cfg_ab, tokenizer = Some \<lparr>tokenizer_name = ''osb''\<rparr>, tkcf = Some 7,
     ev_base = None\<rparr>"

definition calls_ab :: "call list" where
  "calls_ab =
     [Tokenizer_get_config \<lparr>tokenizer_name = ''osb''\<rparr> (clf_tokenizer clf_a),
      Classifier_init_func \<lparr>classifier_name = ''bayes''\<rparr> (new_cl clf_a),
      Cache_init \<lparr>cache_name = ''sqlite3''\<rparr> (Some cache_a),
      Backend_init mmap (new_st ''BAYES_SPAM'' 0) (Some 100),
      Backend_init mmap (new_st ''BAYES_HAM'' 0) None,
      Classifier_init_func \<lparr>classifier_name = ''bayes''\<rparr> (new_cl clf_b),
      Cache_init \<lparr>cache_name = ''sqlite3''\<rparr> None,
      Backend_init mmap (new_st ''B_SPAM'' 1) (Some 101),
      Backend_init mmap (new_st ''B_HAM'' 1) (Some 102)]"

definition ctx_d :: rspamd_stat_ctx where
  "ctx_d = \<lparr>backends_subrs = stat_backends B0, classifiers_subrs = stat_classifiers,
     tokenizers_subrs = stat_tokenizers, caches_subrs = stat_caches B0,
     statfiles = [\<lparr>st_id = 0, st_stcf = \<lparr>symbol = ''D_SPAM''\<rparr>, st_classifier = 0,
                   st_backend = \<lparr>backend_name = ''sqlite3''\<rparr>, st_bkcf = Some 100\<rparr>],
     classifiers = [\<lparr>cl_cfg = clf_d, cl_statfiles_ids = [0],
                     cl_subrs = Some \<lparr>classifier_name = ''bayes''\<rparr>,
                     cl_cache = Some \<lparr>cache_name = ''sqlite3''\<rparr>, cl_cachecf = Some 9\<rparr>],
     async_elts = [], ctx_cfg = Some cfg_d, tokenizer = Some \<lparr>tokenizer_name = ''osb''\<rparr>,
     tkcf = Some 7, ev_base = None\<rparr>"

definition calls_d :: "call list" where
  "calls_d =
     [Tokenizer_get_config \<lparr>tokenizer_name = ''osb''\<rparr> (clf_tokenizer clf_d),
      Classifier_init_func \<lparr>classifier_name = ''bayes''\<rparr> (new_cl clf_d),
      Cache_init \<lparr>cache_name = ''sqlite3''\<rparr> (Some cache_d),
      Backend_init \<lparr>backend_name = ''sqlite3''\<rparr>
        \<lparr>st_id = 0, st_stcf = \<lparr>symbol = ''D_SPAM''\<rparr>, st_classifier = 0,
         st_backend = \<lparr>backend_name = ''sqlite3''\<rparr>, st_bkcf = None\<rparr> (Some 100)]"

definition queue_ab :: "rspamd_stat_async_elt list" where
  "queue_ab = [\<lparr>cleanup = Some 41, ud = Some 1\<rparr>, \<lparr>cleanup = None, ud = Some 2\<rparr>,
               \<lparr>cleanup = Some 43, ud = None\<rparr>]"

definition closes_ab :: "call list" where
  "closes_ab = [Backend_close mmap (Some 100), Backend_close mmap (Some 101),
                Backend_close mmap (Some 102)]"

definition cleanups_ab :: "call list" where
  "cleanups_ab = [Async_cleanup 41 \<lparr>cleanup = Some 41, ud = Some 1\<rparr>,
                  Async_cleanup 43 \<lparr>cleanup = Some 43, ud = None\<rparr>]"

definition P2 :: providers where
  "P2 = P0\<lparr>backend_init := (\<lambda>bk ctx cfg cl st tr. Some (200 + length (statfiles ctx)))\<rparr>"

definition ctx_b2 :: rspamd_stat_ctx where
  "ctx_b2 = \<lparr>backends_subrs = stat_backends B0, classifiers_subrs = stat_classifiers,
     tokenizers_subrs = stat_tokenizers, caches_subrs = stat_caches B0,
     statfiles = [\<lparr>st_id = 0, st_stcf = \<lparr>symbol = ''B_SPAM''\<rparr>, st_classifier = 0,
                   st_backend = mmap, st_bkcf = Some 200\<rparr>,
                  \<lparr>st_id = 1, st_stcf = \<lparr>symbol = ''B_HAM''\<rparr>, st_classifier = 0,
                   st_backend = mmap, st_bkcf = Some 201\<rparr>],
     classifiers = [\<lparr>cl_cfg = clf_b, cl_statfiles_ids = [0, 1],
                     cl_subrs = Some \<lparr>classifier_name = ''bayes''\<rparr>,
                     cl_cache = Some \<lparr>cache_name = ''sqlite3''\<rparr>, cl_cachecf = Some 9\<rparr>],
     async_elts = [], ctx_cfg = Some cfg_b, tokenizer = Some \<lparr>tokenizer_name = ''osb''\<rparr>,
     tkcf = Some 7, ev_base = None\<rparr>"

definition calls_b2 :: "call list" where
  "calls_b2 =
     [Classifier_init_func \<lparr>classifier_name = ''bayes''\<rparr> (new_cl clf_b),
      Cache_init \<lparr>cache_name = ''sqlite3''\<rparr> None,
      Backend_init mmap (new_st ''B_SPAM'' 0) (Some 200),
      Backend_init mmap (new_st ''B_HAM'' 0) (Some 201)]"

definition closes_b2 :: "call list" where
  "closes_b2 = [Backend_close mmap (Some 200), Backend_close mmap (Some 201)]"

section \<open>Name lookup\<close>

text \<open>
  The \<open>for\<close> loop is \<open>find\<close> on the part of the table from \<open>i\<close> on.
\<close>

lemma scan_subrs_find:
  "scan_subrs nm subrs name i = find (\<lambda>d. nm d = name) (drop i subrs)"
proof (induction nm subrs name i rule: scan_subrs.induct)
  case (1 nm subrs name i)
  show ?case
  proof (cases "i < length subrs")
    case True
    then have d: "drop i subrs = subrs ! i # drop (Suc i) subrs"
      by (simp add: Cons_nth_drop_Suc)
    show ?thesis
    proof (cases "name = nm (subrs ! i)")
      case True
      with \<open>i < length subrs\<close> d show ?thesis
        by (subst scan_subrs.simps) simp
    next
      case False
      with \<open>i < length subrs\<close> d "1.IH" show ?thesis
        by (subst scan_subrs.simps) auto
    qed
  next
    case False
    then show ?thesis
      by (subst scan_subrs.simps) simp
  qed
qed

lemma get_subr_find:
  "get_subr nm subrs dflt name = find (\<lambda>d. nm d = name_or_default dflt name) subrs"
  by (simp add: get_subr_def scan_subrs_find)

lemma name_or_default_unset [simp]:
  "name_or_default dflt None = dflt" "name_or_default dflt (Some []) = dflt"
  "name_or_default dflt (Some dflt) = dflt"
  by (simp_all add: name_or_default_def)

lemma get_subr_default:
  "get_subr nm subrs dflt None = get_subr nm subrs dflt (Some dflt)"
  "get_subr nm subrs dflt (Some []) = get_subr nm subrs dflt (Some dflt)"
  by (simp_all add: get_subr_def)

lemma get_subr_None_iff:
  "(get_subr nm subrs dflt name = None) = (name_or_default dflt name \<notin> nm ` set subrs)"
  by (force simp add: get_subr_find find_None_iff)

text \<open>
  The cache table has one entry, named by the default.
\<close>

lemma get_subr_default_cache:
  "get_subr cache_name (stat_caches B) (RSPAMD_DEFAULT_CACHE B) None =
     Some \<lparr>cache_name = RSPAMD_DEFAULT_CACHE B\<rparr>"
  by (simp add: get_subr_find stat_caches_def)

lemma get_subr_cache_Some:
  "get_subr cache_name (stat_caches B) (RSPAMD_DEFAULT_CACHE B) name = Some ca \<Longrightarrow>
     ca = \<lparr>cache_name = RSPAMD_DEFAULT_CACHE B\<rparr>"
  by (simp add: get_subr_find stat_caches_def split: if_splits)

text \<open>
  A name that is set and not empty is looked for as it is; an unset name, the empty
  name and the default name are all looked for as the default name.
\<close>

lemma get_subr_named:
  "n \<noteq> [] \<Longrightarrow> get_subr nm subrs dflt (Some n) = find (\<lambda>d. nm d = n) subrs"
  by (simp add: get_subr_find name_or_default_def)

lemma get_subr_unset:
  "get_subr nm subrs dflt None = find (\<lambda>d. nm d = dflt) subrs"
  "get_subr nm subrs dflt (Some []) = find (\<lambda>d. nm d = dflt) subrs"
  "get_subr nm subrs dflt (Some dflt) = find (\<lambda>d. nm d = dflt) subrs"
  by (simp_all add: get_subr_find name_or_default_def)

lemma find_absent: "(find (\<lambda>d. nm d = n) subrs = None) = (n \<notin> nm ` set subrs)"
  by (force simp add: find_None_iff)

section \<open>The list of calls\<close>

lemma cache_inits_append [simp]: "cache_inits (a @ b) = cache_inits a @ cache_inits b"
  by (induction a rule: cache_inits.induct) simp_all

lemma backend_inits_append [simp]: "backend_inits (a @ b) = backend_inits a @ backend_inits b"
  by (induction a rule: backend_inits.induct) simp_all

lemma backend_closes_append [simp]: "backend_closes (a @ b) = backend_closes a @ backend_closes b"
  by (induction a rule: backend_closes.induct) simp_all

lemma async_cleanups_append [simp]: "async_cleanups (a @ b) = async_cleanups a @ async_cleanups b"
  by (induction a rule: async_cleanups.induct) simp_all

lemma tokenizer_get_configs_append [simp]:
  "tokenizer_get_configs (a @ b) = tokenizer_get_configs a @ tokenizer_get_configs b"
  by (induction a rule: tokenizer_get_configs.induct) simp_all

section \<open>The bootstrap\<close>

subsection \<open>Faults\<close>

lemma g_assert_nonnull_Inr [simp]:
  "(g_assert_nonnull (Inr r) = Inr x) = (r = Some x)"
  "(g_assert_nonnull (Inr r) = Inl e) = (r = None \<and> e = Assertion_failed)"
  by (auto simp add: g_assert_nonnull_def split: option.splits)

lemma g_assert_nonnull_simps [simp]:
  "g_assert_nonnull (Inr (Some x)) = Inr x"
  "g_assert_nonnull (Inr None) = Inl Assertion_failed"
  "g_assert_nonnull (Inl e) = Inl e"
  by (simp_all add: g_assert_nonnull_def)

lemma bind_fault_Inr:
  "(bind_fault m f = Inr y) = (\<exists>x. m = Inr x \<and> f x = Inr y)"
  by (cases m) (simp_all add: bind_fault_def)

lemma bind_fault_simps [simp]:
  "bind_fault (Inl e) f = Inl e" "bind_fault (Inr x) f = f x"
  by (simp_all add: bind_fault_def)

subsection \<open>One iteration\<close>

text \<open>
  What the loop over the statfile definitions of one classifier does: it appends the
  accepted statfiles, numbered from the length of the collection, gives their ids to
  the classifier and calls the backend initializer once for each definition.
\<close>

lemma init_statfiles_result:
  "\<exists>sts evs.
     init_statfiles P cfg bk stfs (ctx, cl, tr) =
       (ctx\<lparr>statfiles := statfiles ctx @ sts\<rparr>,
        cl\<lparr>cl_statfiles_ids := cl_statfiles_ids cl @
             [length (statfiles ctx)..<length (statfiles ctx) + length sts]\<rparr>,
        tr @ evs) \<and>
     map st_id sts = [length (statfiles ctx)..<length (statfiles ctx) + length sts] \<and>
     (\<forall>st\<in>set sts. st_classifier st = length (classifiers ctx) \<and> st_backend st = bk) \<and>
     cache_inits evs = [] \<and>
     map (\<lambda>(st, r). st_stcf st) (backend_inits evs) = stfs \<and>
     (\<forall>(st, r)\<in>set (backend_inits evs). st_classifier st = length (classifiers ctx)) \<and>
     map (\<lambda>st. st\<lparr>st_id := 0\<rparr>) sts =
       map (\<lambda>(st, r). st\<lparr>st_bkcf := r\<rparr>) (filter (\<lambda>(st, r). r \<noteq> None) (backend_inits evs)) \<and>
     tokenizer_get_configs evs = []"
proof (induction stfs arbitrary: ctx cl tr)
  case Nil
  show ?case
    by (rule exI [of _ "[]"], rule exI [of _ "[]"]) simp
next
  case (Cons stf curst)
  define st0 where "st0 = \<lparr>st_id = 0, st_stcf = stf, st_classifier = length (classifiers ctx),
    st_backend = bk, st_bkcf = None\<rparr>"
  define bkcf where "bkcf = backend_init P bk ctx cfg cl st0 tr"
  define ev where "ev = Backend_init bk st0 bkcf"
  show ?case
  proof (cases bkcf)
    case None
    from Cons.IH [of ctx cl "tr @ [ev]"] obtain sts evs where
      r: "init_statfiles P cfg bk curst (ctx, cl, tr @ [ev]) =
       (ctx\<lparr>statfiles := statfiles ctx @ sts\<rparr>,
        cl\<lparr>cl_statfiles_ids := cl_statfiles_ids cl @
             [length (statfiles ctx)..<length (statfiles ctx) + length sts]\<rparr>,
        (tr @ [ev]) @ evs)"
      and p: "map st_id sts = [length (statfiles ctx)..<length (statfiles ctx) + length sts]"
        "\<forall>st\<in>set sts. st_classifier st = length (classifiers ctx) \<and> st_backend st = bk"
        "cache_inits evs = []"
        "map (\<lambda>(st, r). st_stcf st) (backend_inits evs) = curst"
        "\<forall>(st, r)\<in>set (backend_inits evs). st_classifier st = length (classifiers ctx)"
        "map (\<lambda>st. st\<lparr>st_id := 0\<rparr>) sts =
           map (\<lambda>(st, r). st\<lparr>st_bkcf := r\<rparr>) (filter (\<lambda>(st, r). r \<noteq> None) (backend_inits evs))"
        "tokenizer_get_configs evs = []"
      by blast
    have run: "init_statfiles P cfg bk (stf # curst) (ctx, cl, tr) =
        init_statfiles P cfg bk curst (ctx, cl, tr @ [ev])"
      using None unfolding bkcf_def st0_def ev_def by (simp add: Let_def)
    show ?thesis
      apply (rule exI [of _ sts], rule exI [of _ "ev # evs"])
      using run r p None by (simp add: ev_def st0_def)
  next
    case (Some b)
    define st where "st = st0\<lparr>st_bkcf := bkcf, st_id := length (statfiles ctx)\<rparr>"
    define ctx1 where "ctx1 = ctx\<lparr>statfiles := statfiles ctx @ [st]\<rparr>"
    define cl1 where "cl1 = cl\<lparr>cl_statfiles_ids := cl_statfiles_ids cl @ [st_id st]\<rparr>"
    from Cons.IH [of ctx1 cl1 "tr @ [ev]"] obtain sts evs where
      r: "init_statfiles P cfg bk curst (ctx1, cl1, tr @ [ev]) =
       (ctx1\<lparr>statfiles := statfiles ctx1 @ sts\<rparr>,
        cl1\<lparr>cl_statfiles_ids := cl_statfiles_ids cl1 @
             [length (statfiles ctx1)..<length (statfiles ctx1) + length sts]\<rparr>,
        (tr @ [ev]) @ evs)"
      and p: "map st_id sts = [length (statfiles ctx1)..<length (statfiles ctx1) + length sts]"
        "\<forall>st\<in>set sts. st_classifier st = length (classifiers ctx1) \<and> st_backend st = bk"
        "cache_inits evs = []"
        "map (\<lambda>(st, r). st_stcf st) (backend_inits evs) = curst"
        "\<forall>(st, r)\<in>set (backend_inits evs). st_classifier st = length (classifiers ctx1)"
        "map (\<lambda>st. st\<lparr>st_id := 0\<rparr>) sts =
           map (\<lambda>(st, r). st\<lparr>st_bkcf := r\<rparr>) (filter (\<lambda>(st, r). r \<noteq> None) (backend_inits evs))"
        "tokenizer_get_configs evs = []"
      by blast
    have run: "init_statfiles P cfg bk (stf # curst) (ctx, cl, tr) =
        init_statfiles P cfg bk curst (ctx1, cl1, tr @ [ev])"
      using Some unfolding bkcf_def st0_def ev_def st_def ctx1_def cl1_def
      by (simp add: Let_def)
    have upt: "[length (statfiles ctx)..<length (statfiles ctx) + length (st # sts)] =
        length (statfiles ctx) # [length (statfiles ctx1)..<length (statfiles ctx1) + length sts]"
      by (simp add: ctx1_def upt_conv_Cons del: upt_Suc)
    show ?thesis
      apply (rule exI [of _ "st # sts"], rule exI [of _ "ev # evs"])
      unfolding upt
      using run r p Some by (simp add: ev_def st0_def st_def ctx1_def cl1_def del: upt_Suc)
  qed
qed

lemma init_tokenizer_cases:
  assumes "init_tokenizer B P clf (ctx, tr) = Inr (ctx1, tr1)"
  shows "(tkcf ctx \<noteq> None \<and> ctx1 = ctx \<and> tr1 = tr) \<or>
         (tkcf ctx = None \<and>
          (\<exists>tk. get_subr tokenizer_name (tokenizers_subrs ctx) (RSPAMD_DEFAULT_TOKENIZER B)
                   (tkc_name (clf_tokenizer clf)) = Some tk \<and>
                 ctx1 = ctx\<lparr>tokenizer := Some tk,
                            tkcf := Some (get_config P tk (clf_tokenizer clf) tr)\<rparr> \<and>
                 tr1 = tr @ [Tokenizer_get_config tk (clf_tokenizer clf)]))"
  using assms
  by (auto simp add: init_tokenizer_def rspamd_stat_get_tokenizer_def bind_fault_Inr
      split: if_splits)

text \<open>
  An iteration that returns has passed its three assertions; the context it returns is
  the context after the tokenizer step with the accepted statfiles and the new
  classifier appended.
\<close>

lemma init_classifier_Inr:
  assumes "init_classifier B P cfg clf (loc, ctx, tr) = Inr (loc', ctx', tr')"
  obtains bk ctx1 tr1 subrs cache sts evs cf where
    "get_subr backend_name (backends_subrs ctx) (RSPAMD_DEFAULT_BACKEND B) (clf_backend clf) = Some bk"
    "init_tokenizer B P clf (ctx, tr) = Inr (ctx1, tr1)"
    "get_subr classifier_name (classifiers_subrs ctx1) (RSPAMD_DEFAULT_CLASSIFIER B)
       (clf_classifier clf) = Some subrs"
    "loc' = find_cache clf loc"
    "get_subr cache_name (caches_subrs ctx1) (RSPAMD_DEFAULT_CACHE B) (snd loc') = Some cache"
    "ctx' = ctx1\<lparr>statfiles := statfiles ctx1 @ sts,
                  classifiers := classifiers ctx1 @
                    [\<lparr>cl_cfg = clf,
                      cl_statfiles_ids =
                        [length (statfiles ctx1)..<length (statfiles ctx1) + length sts],
                      cl_subrs = Some subrs, cl_cache = Some cache,
                      cl_cachecf = cf\<rparr>]\<rparr>"
    "tr' = tr1 @ [Classifier_init_func subrs
                    \<lparr>cl_cfg = clf, cl_statfiles_ids = [], cl_subrs = Some subrs,
                     cl_cache = None, cl_cachecf = None\<rparr>,
                  Cache_init cache (fst loc')] @ evs"
    "map st_id sts = [length (statfiles ctx1)..<length (statfiles ctx1) + length sts]"
    "\<forall>st\<in>set sts. st_classifier st = length (classifiers ctx1) \<and> st_backend st = bk"
    "cache_inits evs = []"
    "map (\<lambda>(st, r). st_stcf st) (backend_inits evs) = clf_statfiles clf"
    "\<forall>(st, r)\<in>set (backend_inits evs). st_classifier st = length (classifiers ctx1)"
    "map (\<lambda>st. st\<lparr>st_id := 0\<rparr>) sts =
       map (\<lambda>(st, r). st\<lparr>st_bkcf := r\<rparr>) (filter (\<lambda>(st, r). r \<noteq> None) (backend_inits evs))"
    "tokenizer_get_configs evs = []"
proof -
  from assms obtain bk where
    bk: "get_subr backend_name (backends_subrs ctx) (RSPAMD_DEFAULT_BACKEND B) (clf_backend clf) = Some bk"
    by (auto simp add: init_classifier_def rspamd_stat_get_backend_def bind_fault_Inr)
  from assms bk obtain ctx1 tr1 where
    tk: "init_tokenizer B P clf (ctx, tr) = Inr (ctx1, tr1)"
    by (auto simp add: init_classifier_def rspamd_stat_get_backend_def bind_fault_Inr)
  from assms bk tk obtain subrs where
    su: "get_subr classifier_name (classifiers_subrs ctx1) (RSPAMD_DEFAULT_CLASSIFIER B)
       (clf_classifier clf) = Some subrs"
    by (auto simp add: init_classifier_def rspamd_stat_get_backend_def
        rspamd_stat_get_classifier_def bind_fault_Inr)
  from assms bk tk su obtain cache where
    ca: "get_subr cache_name (caches_subrs ctx1) (RSPAMD_DEFAULT_CACHE B)
       (snd (find_cache clf loc)) = Some cache"
    by (auto simp add: init_classifier_def rspamd_stat_get_backend_def
        rspamd_stat_get_classifier_def rspamd_stat_get_cache_def bind_fault_Inr Let_def)
  define cl0 where "cl0 = \<lparr>cl_cfg = clf, cl_statfiles_ids = [], cl_subrs = Some subrs,
                     cl_cache = None, cl_cachecf = None\<rparr>"
  define cf where "cf = cache_init P cache ctx1 cfg (fst (find_cache clf loc))
     (tr1 @ [Classifier_init_func subrs cl0])"
  define cl1 where "cl1 = cl0\<lparr>cl_cache := Some cache, cl_cachecf := cf\<rparr>"
  define tr2 where "tr2 = (tr1 @ [Classifier_init_func subrs cl0]) @
     [Cache_init cache (fst (find_cache clf loc))]"
  from init_statfiles_result [of P cfg bk "clf_statfiles clf" ctx1 cl1 tr2]
  obtain sts evs where
    r: "init_statfiles P cfg bk (clf_statfiles clf) (ctx1, cl1, tr2) =
       (ctx1\<lparr>statfiles := statfiles ctx1 @ sts\<rparr>,
        cl1\<lparr>cl_statfiles_ids := cl_statfiles_ids cl1 @
             [length (statfiles ctx1)..<length (statfiles ctx1) + length sts]\<rparr>,
        tr2 @ evs)"
    and p: "map st_id sts = [length (statfiles ctx1)..<length (statfiles ctx1) + length sts]"
      "\<forall>st\<in>set sts. st_classifier st = length (classifiers ctx1) \<and> st_backend st = bk"
      "cache_inits evs = []"
      "map (\<lambda>(st, r). st_stcf st) (backend_inits evs) = clf_statfiles clf"
      "\<forall>(st, r)\<in>set (backend_inits evs). st_classifier st = length (classifiers ctx1)"
      "map (\<lambda>st. st\<lparr>st_id := 0\<rparr>) sts =
         map (\<lambda>(st, r). st\<lparr>st_bkcf := r\<rparr>) (filter (\<lambda>(st, r). r \<noteq> None) (backend_inits evs))"
      "tokenizer_get_configs evs = []"
    by blast
  have run: "init_classifier B P cfg clf (loc, ctx, tr) =
      (case init_statfiles P cfg bk (clf_statfiles clf) (ctx1, cl1, tr2) of
         (ctx2, cl2, tr3) \<Rightarrow>
           Inr (find_cache clf loc, ctx2\<lparr>classifiers := classifiers ctx2 @ [cl2]\<rparr>, tr3))"
    using bk tk su ca unfolding cl0_def cl1_def tr2_def cf_def
    by (simp add: init_classifier_def rspamd_stat_get_backend_def
        rspamd_stat_get_classifier_def rspamd_stat_get_cache_def Let_def)
  from assms have e: "loc' = find_cache clf loc"
    "ctx' = ctx1\<lparr>statfiles := statfiles ctx1 @ sts,
                  classifiers := classifiers ctx1 @
                    [\<lparr>cl_cfg = clf,
                      cl_statfiles_ids =
                        [length (statfiles ctx1)..<length (statfiles ctx1) + length sts],
                      cl_subrs = Some subrs, cl_cache = Some cache,
                      cl_cachecf = cf\<rparr>]\<rparr>"
    "tr' = tr1 @ [Classifier_init_func subrs
                    \<lparr>cl_cfg = clf, cl_statfiles_ids = [], cl_subrs = Some subrs,
                     cl_cache = None, cl_cachecf = None\<rparr>,
                  Cache_init cache (fst loc')] @ evs"
    unfolding run r by (auto simp add: cl1_def cl0_def tr2_def)
  show thesis
    using that [OF bk tk su e(1) ca [folded e(1)] e(2) e(3) p] .
qed

text \<open>
  The same, seen from the context the iteration starts in.
\<close>

lemma init_classifier_step:
  assumes "init_classifier B P cfg clf (loc, ctx, tr) = Inr (loc', ctx', tr')"
  obtains cl sts evs where
    "statfiles ctx' = statfiles ctx @ sts"
    "classifiers ctx' = classifiers ctx @ [cl]"
    "cl_cfg cl = clf"
    "cl_statfiles_ids cl = [length (statfiles ctx)..<length (statfiles ctx) + length sts]"
    "map st_id sts = [length (statfiles ctx)..<length (statfiles ctx) + length sts]"
    "\<forall>st\<in>set sts. st_classifier st = length (classifiers ctx)"
    "tr' = tr @ evs"
    "map (\<lambda>(st, r). st_stcf st) (backend_inits evs) = clf_statfiles clf"
    "\<forall>(st, r)\<in>set (backend_inits evs). st_classifier st = length (classifiers ctx)"
    "map (\<lambda>st. st\<lparr>st_id := 0\<rparr>) sts =
       map (\<lambda>(st, r). st\<lparr>st_bkcf := r\<rparr>) (filter (\<lambda>(st, r). r \<noteq> None) (backend_inits evs))"
    "loc' = find_cache clf loc"
    "cl_cache cl = get_subr cache_name (caches_subrs ctx) (RSPAMD_DEFAULT_CACHE B) (snd loc')"
    "cache_inits evs = [(the (cl_cache cl), fst loc')]"
    "cl_cache cl \<noteq> None"
proof -
  from assms obtain bk ctx1 tr1 subrs cache sts evs cf where f:
    "get_subr backend_name (backends_subrs ctx) (RSPAMD_DEFAULT_BACKEND B) (clf_backend clf) = Some bk"
    "init_tokenizer B P clf (ctx, tr) = Inr (ctx1, tr1)"
    "get_subr classifier_name (classifiers_subrs ctx1) (RSPAMD_DEFAULT_CLASSIFIER B)
       (clf_classifier clf) = Some subrs"
    "loc' = find_cache clf loc"
    "get_subr cache_name (caches_subrs ctx1) (RSPAMD_DEFAULT_CACHE B) (snd loc') = Some cache"
    "ctx' = ctx1\<lparr>statfiles := statfiles ctx1 @ sts,
                  classifiers := classifiers ctx1 @
                    [\<lparr>cl_cfg = clf,
                      cl_statfiles_ids =
                        [length (statfiles ctx1)..<length (statfiles ctx1) + length sts],
                      cl_subrs = Some subrs, cl_cache = Some cache,
                      cl_cachecf = cf\<rparr>]\<rparr>"
    "tr' = tr1 @ [Classifier_init_func subrs
                    \<lparr>cl_cfg = clf, cl_statfiles_ids = [], cl_subrs = Some subrs,
                     cl_cache = None, cl_cachecf = None\<rparr>,
                  Cache_init cache (fst loc')] @ evs"
    "map st_id sts = [length (statfiles ctx1)..<length (statfiles ctx1) + length sts]"
    "\<forall>st\<in>set sts. st_classifier st = length (classifiers ctx1) \<and> st_backend st = bk"
    "cache_inits evs = []"
    "map (\<lambda>(st, r). st_stcf st) (backend_inits evs) = clf_statfiles clf"
    "\<forall>(st, r)\<in>set (backend_inits evs). st_classifier st = length (classifiers ctx1)"
    "map (\<lambda>st. st\<lparr>st_id := 0\<rparr>) sts =
       map (\<lambda>(st, r). st\<lparr>st_bkcf := r\<rparr>) (filter (\<lambda>(st, r). r \<noteq> None) (backend_inits evs))"
    "tokenizer_get_configs evs = []"
    by (rule init_classifier_Inr)
  from init_tokenizer_cases [OF f(2)] obtain tevs where t:
    "statfiles ctx1 = statfiles ctx" "classifiers ctx1 = classifiers ctx"
    "caches_subrs ctx1 = caches_subrs ctx" "tr1 = tr @ tevs"
    "backend_inits tevs = []" "cache_inits tevs = []"
    by auto
  define cl where "cl = \<lparr>cl_cfg = clf,
                      cl_statfiles_ids =
                        [length (statfiles ctx1)..<length (statfiles ctx1) + length sts],
                      cl_subrs = Some subrs, cl_cache = Some cache,
                      cl_cachecf = cf\<rparr>"
  define evs' where "evs' = tevs @ [Classifier_init_func subrs
                    \<lparr>cl_cfg = clf, cl_statfiles_ids = [], cl_subrs = Some subrs,
                     cl_cache = None, cl_cachecf = None\<rparr>,
                  Cache_init cache (fst loc')] @ evs"
  show thesis
  proof (rule that [of sts cl evs'])
    show "statfiles ctx' = statfiles ctx @ sts" using f(6) t by simp
    show "classifiers ctx' = classifiers ctx @ [cl]" using f(6) t by (simp add: cl_def)
    show "cl_cfg cl = clf" by (simp add: cl_def)
    show "cl_statfiles_ids cl = [length (statfiles ctx)..<length (statfiles ctx) + length sts]"
      using t by (simp add: cl_def)
    show "map st_id sts = [length (statfiles ctx)..<length (statfiles ctx) + length sts]"
      using f(8) t by simp
    show "\<forall>st\<in>set sts. st_classifier st = length (classifiers ctx)"
      using f(9) t by simp
    show "tr' = tr @ evs'" using f(7) t by (simp add: evs'_def)
    show "map (\<lambda>(st, r). st_stcf st) (backend_inits evs') = clf_statfiles clf"
      using f(11) t by (simp add: evs'_def)
    show "\<forall>(st, r)\<in>set (backend_inits evs'). st_classifier st = length (classifiers ctx)"
      using f(12) t by (simp add: evs'_def)
    show "map (\<lambda>st. st\<lparr>st_id := 0\<rparr>) sts =
       map (\<lambda>(st, r). st\<lparr>st_bkcf := r\<rparr>) (filter (\<lambda>(st, r). r \<noteq> None) (backend_inits evs'))"
      using f(13) t by (simp add: evs'_def)
    show "loc' = find_cache clf loc" by (rule f(4))
    show "cl_cache cl = get_subr cache_name (caches_subrs ctx) (RSPAMD_DEFAULT_CACHE B) (snd loc')"
      using f(5) t by (simp add: cl_def)
    show "cache_inits evs' = [(the (cl_cache cl), fst loc')]"
      using f(10) t by (simp add: evs'_def cl_def)
    show "cl_cache cl \<noteq> None" by (simp add: cl_def)
  qed
qed

text \<open>
  What an iteration leaves alone.
\<close>

lemma init_classifier_tables:
  assumes "init_classifier B P cfg clf (loc, ctx, tr) = Inr (loc', ctx', tr')"
  shows "backends_subrs ctx' = backends_subrs ctx \<and>
         classifiers_subrs ctx' = classifiers_subrs ctx \<and>
         tokenizers_subrs ctx' = tokenizers_subrs ctx \<and>
         caches_subrs ctx' = caches_subrs ctx \<and>
         async_elts ctx' = async_elts ctx \<and>
         ctx_cfg ctx' = ctx_cfg ctx \<and> ev_base ctx' = ev_base ctx"
proof -
  from assms obtain ctx1 tr1 sts cl where
    "init_tokenizer B P clf (ctx, tr) = Inr (ctx1, tr1)"
    "ctx' = ctx1\<lparr>statfiles := statfiles ctx1 @ sts, classifiers := classifiers ctx1 @ [cl]\<rparr>"
    by (rule init_classifier_Inr)
  with init_tokenizer_cases [of B P clf ctx tr ctx1 tr1] show ?thesis
    by auto
qed

text \<open>
  The tokenizer of the context after one iteration.
\<close>

lemma init_classifier_tokenizer:
  assumes "init_classifier B P cfg clf (loc, ctx, tr) = Inr (loc', ctx', tr')"
  shows "tkcf ctx \<noteq> None \<Longrightarrow>
           tokenizer ctx' = tokenizer ctx \<and> tkcf ctx' = tkcf ctx \<and>
           tokenizer_get_configs tr' = tokenizer_get_configs tr"
    and "tkcf ctx = None \<Longrightarrow>
           (\<exists>tk. get_subr tokenizer_name (tokenizers_subrs ctx) (RSPAMD_DEFAULT_TOKENIZER B)
                   (tkc_name (clf_tokenizer clf)) = Some tk \<and>
                 tokenizer ctx' = Some tk \<and>
                 tkcf ctx' = Some (get_config P tk (clf_tokenizer clf) tr) \<and>
                 tokenizer_get_configs tr' =
                   tokenizer_get_configs tr @ [(tk, clf_tokenizer clf)])"
proof -
  from assms obtain ctx1 tr1 sts cl subrs cl0 cache obj evs where f:
    "init_tokenizer B P clf (ctx, tr) = Inr (ctx1, tr1)"
    "ctx' = ctx1\<lparr>statfiles := statfiles ctx1 @ sts, classifiers := classifiers ctx1 @ [cl]\<rparr>"
    "tr' = tr1 @ [Classifier_init_func subrs cl0, Cache_init cache obj] @ evs"
    "tokenizer_get_configs evs = []"
    by (rule init_classifier_Inr)
  show "tkcf ctx \<noteq> None \<Longrightarrow>
           tokenizer ctx' = tokenizer ctx \<and> tkcf ctx' = tkcf ctx \<and>
           tokenizer_get_configs tr' = tokenizer_get_configs tr"
    using init_tokenizer_cases [OF f(1)] f(2,3,4) by auto
  show "tkcf ctx = None \<Longrightarrow>
           (\<exists>tk. get_subr tokenizer_name (tokenizers_subrs ctx) (RSPAMD_DEFAULT_TOKENIZER B)
                   (tkc_name (clf_tokenizer clf)) = Some tk \<and>
                 tokenizer ctx' = Some tk \<and>
                 tkcf ctx' = Some (get_config P tk (clf_tokenizer clf) tr) \<and>
                 tokenizer_get_configs tr' =
                   tokenizer_get_configs tr @ [(tk, clf_tokenizer clf)])"
    using init_tokenizer_cases [OF f(1)] f(2,3,4) by auto
qed

text \<open>
  An iteration stops only at a failed assertion.
\<close>

lemma init_classifier_fault:
  assumes "init_classifier B P cfg clf (loc, ctx, tr) = Inl e"
  shows "e = Assertion_failed"
  using assms
  by (auto simp add: init_classifier_def init_tokenizer_def bind_fault_def g_assert_nonnull_def
      rspamd_stat_get_backend_def rspamd_stat_get_classifier_def rspamd_stat_get_cache_def
      rspamd_stat_get_tokenizer_def Let_def
      split: sum.splits option.splits if_splits prod.splits)

subsection \<open>The loop over the classifier definitions\<close>

lemma rspamd_stat_init_Inr:
  assumes "rspamd_stat_init B P cfg evb g = Inr (g', tr)"
  obtains loc c where
    "init_classifiers B P cfg (cfg_classifiers cfg) ((None, None), prepare_ctx B cfg evb g, []) =
       Inr (loc, c, tr)"
    "g' = Some c"
  using assms by (auto simp add: rspamd_stat_init_def bind_fault_Inr)

lemma init_classifiers_append:
  "init_classifiers B P cfg (xs @ ys) s =
     bind_fault (init_classifiers B P cfg xs s) (init_classifiers B P cfg ys)"
proof (induction xs arbitrary: s)
  case Nil
  show ?case by simp
next
  case (Cons x xs)
  show ?case
    by (cases "init_classifier B P cfg x s") (simp_all add: Cons.IH)
qed

lemma init_classifiers_extends:
  assumes "init_classifiers B P cfg clfs (loc, ctx, tr) = Inr (loc', ctx', tr')"
  shows "(\<exists>sts. statfiles ctx' = statfiles ctx @ sts) \<and>
         map cl_cfg (classifiers ctx') = map cl_cfg (classifiers ctx) @ clfs"
  using assms
proof (induction clfs arbitrary: loc ctx tr)
  case Nil
  then show ?case by simp
next
  case (Cons clf cur)
  from Cons.prems obtain loc1 ctx1 tr1 where
    s: "init_classifier B P cfg clf (loc, ctx, tr) = Inr (loc1, ctx1, tr1)"
    and r: "init_classifiers B P cfg cur (loc1, ctx1, tr1) = Inr (loc', ctx', tr')"
    by (auto simp add: bind_fault_Inr)
  from s obtain cl sts where
    "statfiles ctx1 = statfiles ctx @ sts" "classifiers ctx1 = classifiers ctx @ [cl]"
    "cl_cfg cl = clf"
    by (rule init_classifier_step)
  with Cons.IH [OF r] show ?case by auto
qed

lemma init_classifiers_grows:
  assumes "init_classifiers B P cfg clfs (loc, ctx, tr) = Inr (loc', ctx', tr')"
  shows "(\<exists>cls. classifiers ctx' = classifiers ctx @ cls) \<and>
         (\<exists>evs. tr' = tr @ evs)"
  using assms
proof (induction clfs arbitrary: loc ctx tr)
  case Nil
  then show ?case by simp
next
  case (Cons clf cur)
  from Cons.prems obtain loc1 ctx1 tr1 where
    s: "init_classifier B P cfg clf (loc, ctx, tr) = Inr (loc1, ctx1, tr1)"
    and r: "init_classifiers B P cfg cur (loc1, ctx1, tr1) = Inr (loc', ctx', tr')"
    by (auto simp add: bind_fault_Inr)
  from s obtain cl sts evs where
    "classifiers ctx1 = classifiers ctx @ [cl]" "tr1 = tr @ evs"
    by (rule init_classifier_step)
  with Cons.IH [OF r] show ?case by auto
qed

lemma init_classifiers_fault:
  assumes "init_classifiers B P cfg clfs s = Inl e"
  shows "e = Assertion_failed"
  using assms
proof (induction clfs arbitrary: s)
  case Nil
  then show ?case by simp
next
  case (Cons clf cur)
  show ?case
  proof (cases "init_classifier B P cfg clf s")
    case (Inl e')
    obtain loc ctx tr where "s = (loc, ctx, tr)" by (cases s)
    with Inl init_classifier_fault [of B P cfg clf loc ctx tr e'] Cons.prems show ?thesis
      by simp
  next
    case (Inr s')
    with Cons.prems Cons.IH [of s'] show ?thesis by simp
  qed
qed

lemma init_classifiers_tokenizer_kept:
  assumes "init_classifiers B P cfg clfs (loc, ctx, tr) = Inr (loc', ctx', tr')"
    and "tkcf ctx \<noteq> None"
  shows "tokenizer ctx' = tokenizer ctx \<and> tkcf ctx' = tkcf ctx \<and>
         tokenizer_get_configs tr' = tokenizer_get_configs tr"
  using assms
proof (induction clfs arbitrary: loc ctx tr)
  case Nil
  then show ?case by simp
next
  case (Cons clf cur)
  from Cons.prems(1) obtain loc1 ctx1 tr1 where
    s: "init_classifier B P cfg clf (loc, ctx, tr) = Inr (loc1, ctx1, tr1)"
    and r: "init_classifiers B P cfg cur (loc1, ctx1, tr1) = Inr (loc', ctx', tr')"
    by (auto simp add: bind_fault_Inr)
  from init_classifier_tokenizer(1) [OF s Cons.prems(2)]
  have k: "tokenizer ctx1 = tokenizer ctx" "tkcf ctx1 = tkcf ctx"
    "tokenizer_get_configs tr1 = tokenizer_get_configs tr"
    by simp_all
  with Cons.prems(2) have "tkcf ctx1 \<noteq> None" by simp
  from Cons.IH [OF r this] k show ?case by simp
qed

subsection \<open>The object graph\<close>

lemma nth_append_block:
  "map (\<lambda>n. (xs @ ys) ! n) [length xs..<length xs + length ys] = ys"
proof -
  have "[length xs..<length xs + length ys] = map (\<lambda>i. i + length xs) [0..<length ys]"
    by (simp only: map_add_upt add.commute)
  then have "map (\<lambda>n. (xs @ ys) ! n) [length xs..<length xs + length ys] =
      map (\<lambda>i. ys ! i) [0..<length ys]"
    by (simp add: o_def nth_append del: upt_Suc)
  then show ?thesis
    by (simp only: map_nth)
qed

lemma upt_append_block: "[0..<n] @ [n..<n + k] = [0..<n + k]"
  using upt_add_eq_append [of 0 n k] by simp

lemma map_nth_upt: "map (\<lambda>i. f (xs ! i)) [0..<length xs] = map f xs"
proof -
  have "map f (map (\<lambda>i. xs ! i) [0..<length xs]) = map f xs"
    by (simp only: map_nth)
  then show ?thesis
    by (simp add: o_def del: upt_Suc)
qed

lemma boot_inv_step:
  assumes inv: "boot_inv ctx tr"
    and step: "init_classifier B P cfg clf (loc, ctx, tr) = Inr (loc', ctx', tr')"
  shows "boot_inv ctx' tr'"
proof -
  from step obtain cl sts evs where f:
    "statfiles ctx' = statfiles ctx @ sts"
    "classifiers ctx' = classifiers ctx @ [cl]"
    "cl_cfg cl = clf"
    "cl_statfiles_ids cl = [length (statfiles ctx)..<length (statfiles ctx) + length sts]"
    "map st_id sts = [length (statfiles ctx)..<length (statfiles ctx) + length sts]"
    "\<forall>st\<in>set sts. st_classifier st = length (classifiers ctx)"
    "tr' = tr @ evs"
    "map (\<lambda>(st, r). st_stcf st) (backend_inits evs) = clf_statfiles clf"
    "\<forall>(st, r)\<in>set (backend_inits evs). st_classifier st = length (classifiers ctx)"
    "map (\<lambda>st. st\<lparr>st_id := 0\<rparr>) sts =
       map (\<lambda>(st, r). st\<lparr>st_bkcf := r\<rparr>) (filter (\<lambda>(st, r). r \<noteq> None) (backend_inits evs))"
    by (rule init_classifier_step)
  define n where "n = length (statfiles ctx)"
  define k where "k = length (classifiers ctx)"
  from inv have a: "map st_id (statfiles ctx) = [0..<n]"
    and b: "concat (map cl_statfiles_ids (classifiers ctx)) = [0..<n]"
    and c: "\<And>i m. i < k \<Longrightarrow> m \<in> set (cl_statfiles_ids (classifiers ctx ! i)) \<Longrightarrow>
              m < n \<and> st_classifier (statfiles ctx ! m) = i"
    and d: "map (\<lambda>st. st\<lparr>st_id := 0\<rparr>) (statfiles ctx) =
        map (\<lambda>(st, r). st\<lparr>st_bkcf := r\<rparr>) (filter (\<lambda>(st, r). r \<noteq> None) (backend_inits tr))"
    and e1: "\<And>st r. (st, r) \<in> set (backend_inits tr) \<Longrightarrow> st_classifier st < k"
    and e2: "\<And>i. i < k \<Longrightarrow> map (\<lambda>(st, r). st_stcf st)
           (filter (\<lambda>(st, r). st_classifier st = i) (backend_inits tr)) =
         clf_statfiles (cl_cfg (classifiers ctx ! i))"
    and g1: "\<And>st. st \<in> set (statfiles ctx) \<Longrightarrow> st_classifier st < k"
    and g2: "\<And>i. i < k \<Longrightarrow>
         map (\<lambda>n. statfiles ctx ! n) (cl_statfiles_ids (classifiers ctx ! i)) =
         filter (\<lambda>st. st_classifier st = i) (statfiles ctx)"
  proof -
    show "map st_id (statfiles ctx) = [0..<n]"
      using inv by (simp add: boot_inv_def n_def)
    show "concat (map cl_statfiles_ids (classifiers ctx)) = [0..<n]"
      using inv by (simp add: boot_inv_def n_def)
    show "m < n \<and> st_classifier (statfiles ctx ! m) = i"
      if "i < k" "m \<in> set (cl_statfiles_ids (classifiers ctx ! i))" for i m
    proof -
      from inv have "\<forall>i<length (classifiers ctx). \<forall>n\<in>set (cl_statfiles_ids (classifiers ctx ! i)).
         n < length (statfiles ctx) \<and> st_classifier (statfiles ctx ! n) = i"
        unfolding boot_inv_def by (elim conjE)
      with that show ?thesis unfolding n_def k_def by blast
    qed
    show "map (\<lambda>st. st\<lparr>st_id := 0\<rparr>) (statfiles ctx) =
        map (\<lambda>(st, r). st\<lparr>st_bkcf := r\<rparr>) (filter (\<lambda>(st, r). r \<noteq> None) (backend_inits tr))"
      using inv unfolding boot_inv_def by (elim conjE)
    show "st_classifier st < k" if "(st, r) \<in> set (backend_inits tr)" for st r
    proof -
      from inv have "\<forall>(st, r)\<in>set (backend_inits tr). st_classifier st < length (classifiers ctx)"
        unfolding boot_inv_def by (elim conjE)
      with that show ?thesis unfolding k_def by blast
    qed
    show "map (\<lambda>(st, r). st_stcf st)
           (filter (\<lambda>(st, r). st_classifier st = i) (backend_inits tr)) =
         clf_statfiles (cl_cfg (classifiers ctx ! i))" if "i < k" for i
    proof -
      from inv have "\<forall>i<length (classifiers ctx).
         map (\<lambda>(st, r). st_stcf st)
           (filter (\<lambda>(st, r). st_classifier st = i) (backend_inits tr)) =
         clf_statfiles (cl_cfg (classifiers ctx ! i))"
        unfolding boot_inv_def by (elim conjE)
      with that show ?thesis unfolding k_def by blast
    qed
    show "st_classifier st < k" if "st \<in> set (statfiles ctx)" for st
    proof -
      from inv have "\<forall>st\<in>set (statfiles ctx). st_classifier st < length (classifiers ctx)"
        unfolding boot_inv_def by (elim conjE)
      with that show ?thesis unfolding k_def by blast
    qed
    show "map (\<lambda>n. statfiles ctx ! n) (cl_statfiles_ids (classifiers ctx ! i)) =
         filter (\<lambda>st. st_classifier st = i) (statfiles ctx)" if "i < k" for i
    proof -
      from inv have "\<forall>i<length (classifiers ctx).
         map (\<lambda>n. statfiles ctx ! n) (cl_statfiles_ids (classifiers ctx ! i)) =
         filter (\<lambda>st. st_classifier st = i) (statfiles ctx)"
        unfolding boot_inv_def by (elim conjE)
      with that show ?thesis unfolding k_def by blast
    qed
  qed
  have A: "map st_id (statfiles ctx') = [0..<length (statfiles ctx')]"
    using a f(1,5) by (simp add: n_def upt_append_block del: upt_Suc)
  have B: "concat (map cl_statfiles_ids (classifiers ctx')) = [0..<length (statfiles ctx')]"
    using b f(1,2,4) by (simp add: n_def upt_append_block del: upt_Suc)
  have C: "m < length (statfiles ctx') \<and> st_classifier (statfiles ctx' ! m) = i"
    if "i < length (classifiers ctx')" "m \<in> set (cl_statfiles_ids (classifiers ctx' ! i))" for i m
  proof (cases "i < k")
    case True
    with that f(2) have "m \<in> set (cl_statfiles_ids (classifiers ctx ! i))"
      by (simp add: nth_append k_def)
    from c [OF True this] show ?thesis
      using f(1) by (simp add: nth_append n_def)
  next
    case False
    with that(1) f(2) have i: "i = k" by (simp add: k_def)
    with that(2) f(2,4) have m: "n \<le> m" "m < n + length sts"
      by (simp_all add: k_def n_def)
    then have "statfiles ctx' ! m = sts ! (m - n)" "m - n < length sts"
      using f(1) by (simp_all add: nth_append n_def)
    then have "statfiles ctx' ! m \<in> set sts" by simp
    with f(6) i m f(1) show ?thesis by (simp add: k_def n_def)
  qed
  have D: "map (\<lambda>st. st\<lparr>st_id := 0\<rparr>) (statfiles ctx') =
        map (\<lambda>(st, r). st\<lparr>st_bkcf := r\<rparr>) (filter (\<lambda>(st, r). r \<noteq> None) (backend_inits tr'))"
    using d f(1,7,10) by simp
  have E1: "st_classifier st < length (classifiers ctx')"
    if "(st, r) \<in> set (backend_inits tr')" for st r
    using that e1 [of st r] f(2,7,9) by (auto simp add: k_def)
  have new: "filter (\<lambda>(st, r). st_classifier st = i) (backend_inits evs) =
      (if i = k then backend_inits evs else [])" for i
    using f(9) by (auto simp add: k_def filter_empty_conv intro!: filter_True)
  have old: "filter (\<lambda>(st, r). st_classifier st = k) (backend_inits tr) = []"
    using e1 by (fastforce simp add: filter_empty_conv)
  have E2: "map (\<lambda>(st, r). st_stcf st)
           (filter (\<lambda>(st, r). st_classifier st = i) (backend_inits tr')) =
         clf_statfiles (cl_cfg (classifiers ctx' ! i))"
    if "i < length (classifiers ctx')" for i
  proof (cases "i < k")
    case True
    then show ?thesis
      using e2 [OF True] f(2,7) by (simp add: new nth_append k_def)
  next
    case False
    with that f(2) have "i = k" by (simp add: k_def)
    then show ?thesis
      using f(2,3,7,8) old by (simp add: new nth_append k_def)
  qed
  have G1: "st_classifier st < length (classifiers ctx')"
    if "st \<in> set (statfiles ctx')" for st
    using that g1 [of st] f(1,2,6) by (auto simp add: k_def)
  have oldst: "filter (\<lambda>st. st_classifier st = k) (statfiles ctx) = []"
    using g1 by (fastforce simp add: filter_empty_conv)
  have newst: "filter (\<lambda>st. st_classifier st = i) sts = (if i = k then sts else [])" for i
    using f(6) by (auto simp add: k_def filter_empty_conv intro!: filter_True)
  have G2: "map (\<lambda>n. statfiles ctx' ! n) (cl_statfiles_ids (classifiers ctx' ! i)) =
         filter (\<lambda>st. st_classifier st = i) (statfiles ctx')"
    if "i < length (classifiers ctx')" for i
  proof (cases "i < k")
    case True
    have "map (\<lambda>n. statfiles ctx' ! n) (cl_statfiles_ids (classifiers ctx ! i)) =
        map (\<lambda>n. statfiles ctx ! n) (cl_statfiles_ids (classifiers ctx ! i))"
      using c [OF True] f(1) by (simp add: nth_append n_def)
    then show ?thesis
      using True g2 [OF True] f(1,2) by (simp add: newst nth_append k_def)
  next
    case False
    with that f(2) have "i = k" by (simp add: k_def)
    then show ?thesis
      using f(1,2,4) oldst nth_append_block [of "statfiles ctx" sts]
      by (simp add: newst nth_append k_def)
  qed
  show ?thesis
    unfolding boot_inv_def
  proof (intro conjI)
    show "\<forall>st\<in>set (statfiles ctx'). st_classifier st < length (classifiers ctx')"
      using G1 by blast
    show "\<forall>i<length (classifiers ctx').
         map (\<lambda>n. statfiles ctx' ! n) (cl_statfiles_ids (classifiers ctx' ! i)) =
         filter (\<lambda>st. st_classifier st = i) (statfiles ctx')"
      using G2 by blast
    show "map st_id (statfiles ctx') = [0..<length (statfiles ctx')]" by (rule A)
    show "concat (map cl_statfiles_ids (classifiers ctx')) = [0..<length (statfiles ctx')]"
      by (rule B)
    show "\<forall>i<length (classifiers ctx'). \<forall>n\<in>set (cl_statfiles_ids (classifiers ctx' ! i)).
         n < length (statfiles ctx') \<and> st_classifier (statfiles ctx' ! n) = i"
      using C by blast
    show "map (\<lambda>st. st\<lparr>st_id := 0\<rparr>) (statfiles ctx') =
        map (\<lambda>(st, r). st\<lparr>st_bkcf := r\<rparr>) (filter (\<lambda>(st, r). r \<noteq> None) (backend_inits tr'))"
      by (rule D)
    show "\<forall>(st, r)\<in>set (backend_inits tr'). st_classifier st < length (classifiers ctx')"
      using E1 by blast
    show "\<forall>i<length (classifiers ctx').
         map (\<lambda>(st, r). st_stcf st)
           (filter (\<lambda>(st, r). st_classifier st = i) (backend_inits tr')) =
         clf_statfiles (cl_cfg (classifiers ctx' ! i))"
      using E2 by blast
  qed
qed

lemma boot_inv_loop:
  assumes "init_classifiers B P cfg clfs (loc, ctx, tr) = Inr (loc', ctx', tr')"
    and "boot_inv ctx tr"
  shows "boot_inv ctx' tr'"
  using assms
proof (induction clfs arbitrary: loc ctx tr)
  case Nil
  then show ?case by simp
next
  case (Cons clf cur)
  from Cons.prems(1) obtain loc1 ctx1 tr1 where
    s: "init_classifier B P cfg clf (loc, ctx, tr) = Inr (loc1, ctx1, tr1)"
    and r: "init_classifiers B P cfg cur (loc1, ctx1, tr1) = Inr (loc', ctx', tr')"
    by (auto simp add: bind_fault_Inr)
  from boot_inv_step [OF Cons.prems(2) s] have "boot_inv ctx1 tr1" .
  from Cons.IH [OF r this] show ?case .
qed

lemma boot_inv_prepare: "boot_inv (prepare_ctx B cfg evb g) []"
  by (simp add: boot_inv_def prepare_ctx_def)

lemma boot_inv_init:
  assumes "rspamd_stat_init B P cfg evb g = Inr (Some c, tr)"
  shows "boot_inv c tr"
proof -
  from assms obtain loc where
    "init_classifiers B P cfg (cfg_classifiers cfg) ((None, None), prepare_ctx B cfg evb g, []) =
       Inr (loc, c, tr)"
    by (auto elim: rspamd_stat_init_Inr)
  from boot_inv_loop [OF this boot_inv_prepare] show ?thesis .
qed

subsection \<open>The cache of a classifier\<close>

lemma find_cache_eq:
  "find_cache clf loc =
     (case clf_opts clf of
        None \<Rightarrow> loc
      | Some opts \<Rightarrow>
          (clf_cache_obj clf,
           case clf_cache_name_obj clf of None \<Rightarrow> snd loc | Some cn \<Rightarrow> ucl_object_tostring cn))"
  by (cases loc)
     (simp add: find_cache_def clf_cache_obj_def clf_cache_name_obj_def Let_def
       split: option.splits)

lemma fst_find_cache:
  "fst (find_cache clf loc) = (case clf_opts clf of None \<Rightarrow> fst loc | Some opts \<Rightarrow> clf_cache_obj clf)"
  by (simp add: find_cache_eq split: option.splits)

lemma clf_cache_obj_no_opts: "clf_opts clf = None \<Longrightarrow> clf_cache_obj clf = None"
  by (simp add: clf_cache_obj_def)

lemma clf_cache_name_obj_no_opts: "clf_opts clf = None \<Longrightarrow> clf_cache_name_obj clf = None"
  by (simp add: clf_cache_name_obj_def clf_cache_obj_def)

lemma find_cache_named:
  "clf_cache_name_obj clf = Some cn \<Longrightarrow> snd (find_cache clf loc) = clf_cache_name clf"
  by (auto simp add: find_cache_eq clf_cache_name_def clf_cache_name_obj_no_opts
      split: option.splits)

lemma snd_find_cache:
  "snd (find_cache clf loc) =
     (case clf_cache_name_obj clf of None \<Rightarrow> snd loc | Some cn \<Rightarrow> clf_cache_name clf)"
  by (auto simp add: find_cache_eq clf_cache_name_def clf_cache_name_obj_no_opts
      split: option.splits)

text \<open>
  The cache descriptor of the classifier at position \<open>i\<close> and the arguments of its
  initializer: the options are the first variable of the loop after the iterations up
  to \<open>i\<close>.
\<close>

lemma init_classifiers_cache:
  assumes "init_classifiers B P cfg clfs (loc, ctx, tr) = Inr (loc', ctx', tr')"
    and "caches_subrs ctx = stat_caches B"
    and "i < length clfs"
  shows "cl_cache (classifiers ctx' ! (length (classifiers ctx) + i)) =
           Some \<lparr>cache_name = RSPAMD_DEFAULT_CACHE B\<rparr> \<and>
         cache_inits tr' ! (length (cache_inits tr) + i) =
           (\<lparr>cache_name = RSPAMD_DEFAULT_CACHE B\<rparr>,
            fst (fold find_cache (take (Suc i) clfs) loc))"
  using assms
proof (induction clfs arbitrary: i loc ctx tr)
  case Nil
  then show ?case by simp
next
  case (Cons clf cur)
  from Cons.prems(1) obtain loc1 ctx1 tr1 where
    s: "init_classifier B P cfg clf (loc, ctx, tr) = Inr (loc1, ctx1, tr1)"
    and r: "init_classifiers B P cfg cur (loc1, ctx1, tr1) = Inr (loc', ctx', tr')"
    by (auto simp add: bind_fault_Inr)
  from s obtain cl sts evs where f:
    "classifiers ctx1 = classifiers ctx @ [cl]"
    "tr1 = tr @ evs"
    "loc1 = find_cache clf loc"
    "cl_cache cl = get_subr cache_name (caches_subrs ctx) (RSPAMD_DEFAULT_CACHE B) (snd loc1)"
    "cache_inits evs = [(the (cl_cache cl), fst loc1)]"
    "cl_cache cl \<noteq> None"
    by (rule init_classifier_step)
  from f(4,6) Cons.prems(2) have ca: "cl_cache cl = Some \<lparr>cache_name = RSPAMD_DEFAULT_CACHE B\<rparr>"
    using get_subr_cache_Some [of B "snd loc1"] by auto
  from init_classifier_tables [OF s] Cons.prems(2)
  have tab: "caches_subrs ctx1 = stat_caches B" by simp
  from init_classifiers_grows [OF r] obtain cls evs' where g:
    "classifiers ctx' = classifiers ctx1 @ cls" "tr' = tr1 @ evs'"
    by auto
  from f(5) ca have ce: "cache_inits evs = [(\<lparr>cache_name = RSPAMD_DEFAULT_CACHE B\<rparr>, fst loc1)]"
    by simp
  show ?case
  proof (cases i)
    case 0
    with f(1,2,3) g ca ce show ?thesis
      by (simp add: nth_append)
  next
    case (Suc j)
    with Cons.prems(3) have j: "j < length cur" by simp
    from Cons.IH [OF r tab j] f(1,2,3) ce Suc show ?thesis
      by simp
  qed
qed

lemma fold_find_cache_no_obj:
  assumes "\<forall>j<i. clf_cache_obj (clfs ! j) = None" "i \<le> length clfs" "fst loc = None"
  shows "fst (fold find_cache (take i clfs) loc) = None"
  using assms
proof (induction i)
  case 0
  then show ?case by simp
next
  case (Suc i)
  then have ih: "fst (fold find_cache (take i clfs) loc) = None" by simp
  from Suc.prems have "clf_cache_obj (clfs ! i) = None" "i < length clfs" by simp_all
  with ih show ?case
    by (simp add: take_Suc_conv_app_nth fst_find_cache split: option.splits)
qed

lemma fold_find_cache_own:
  assumes "i < length clfs"
    and "clf_opts (clfs ! i) \<noteq> None \<or> (\<forall>j<i. clf_cache_obj (clfs ! j) = None)"
  shows "fst (fold find_cache (take (Suc i) clfs) (None, None)) = clf_cache_obj (clfs ! i)"
proof (cases "clf_opts (clfs ! i)")
  case None
  with assms(2) have "\<forall>j<i. clf_cache_obj (clfs ! j) = None" by simp
  from fold_find_cache_no_obj [OF this, of "(None, None)"] assms(1)
  have "fst (fold find_cache (take i clfs) (None, None)) = None" by simp
  with None assms(1) show ?thesis
    by (simp add: take_Suc_conv_app_nth fst_find_cache clf_cache_obj_no_opts)
next
  case (Some opts)
  with assms(1) show ?thesis
    by (simp add: take_Suc_conv_app_nth fst_find_cache)
qed

subsection \<open>Names that resolve to nothing\<close>

lemma init_classifier_unresolved:
  assumes tables: "backends_subrs ctx = stat_backends B" "classifiers_subrs ctx = stat_classifiers"
      "caches_subrs ctx = stat_caches B"
    and bad: "get_subr backend_name (stat_backends B) (RSPAMD_DEFAULT_BACKEND B)
                (clf_backend clf) = None \<or>
              get_subr classifier_name stat_classifiers (RSPAMD_DEFAULT_CLASSIFIER B)
                (clf_classifier clf) = None \<or>
              get_subr cache_name (stat_caches B) (RSPAMD_DEFAULT_CACHE B)
                (clf_cache_name clf) = None"
  shows "init_classifier B P cfg clf (loc, ctx, tr) = Inl Assertion_failed"
proof (cases "init_classifier B P cfg clf (loc, ctx, tr)")
  case (Inl e)
  with init_classifier_fault [OF Inl] show ?thesis by simp
next
  case (Inr s)
  obtain loc' ctx' tr' where s: "s = (loc', ctx', tr')" by (cases s)
  from Inr [unfolded s] obtain bk ctx1 tr1 subrs cache where f:
    "get_subr backend_name (backends_subrs ctx) (RSPAMD_DEFAULT_BACKEND B) (clf_backend clf) = Some bk"
    "init_tokenizer B P clf (ctx, tr) = Inr (ctx1, tr1)"
    "get_subr classifier_name (classifiers_subrs ctx1) (RSPAMD_DEFAULT_CLASSIFIER B)
       (clf_classifier clf) = Some subrs"
    "loc' = find_cache clf loc"
    "get_subr cache_name (caches_subrs ctx1) (RSPAMD_DEFAULT_CACHE B) (snd loc') = Some cache"
    by (rule init_classifier_Inr)
  from init_tokenizer_cases [OF f(2)] have same:
    "classifiers_subrs ctx1 = classifiers_subrs ctx" "caches_subrs ctx1 = caches_subrs ctx"
    by auto
  from bad f(1,3) tables same
  have nc: "get_subr cache_name (stat_caches B) (RSPAMD_DEFAULT_CACHE B) (clf_cache_name clf) = None"
    by auto
  then obtain cn where cn: "clf_cache_name_obj clf = Some cn"
    by (cases "clf_cache_name_obj clf") (simp_all add: clf_cache_name_def get_subr_default_cache)
  from find_cache_named [OF cn, of loc] f(4,5) same tables nc show ?thesis
    by simp
qed

lemma init_classifiers_unresolved:
  assumes "clf \<in> set clfs"
    and "backends_subrs ctx = stat_backends B" "classifiers_subrs ctx = stat_classifiers"
      "caches_subrs ctx = stat_caches B"
    and "get_subr backend_name (stat_backends B) (RSPAMD_DEFAULT_BACKEND B)
                (clf_backend clf) = None \<or>
              get_subr classifier_name stat_classifiers (RSPAMD_DEFAULT_CLASSIFIER B)
                (clf_classifier clf) = None \<or>
              get_subr cache_name (stat_caches B) (RSPAMD_DEFAULT_CACHE B)
                (clf_cache_name clf) = None"
  shows "init_classifiers B P cfg clfs (loc, ctx, tr) = Inl Assertion_failed"
  using assms(1-4)
proof (induction clfs arbitrary: loc ctx tr)
  case Nil
  then show ?case by simp
next
  case (Cons x cur)
  show ?case
  proof (cases "init_classifier B P cfg x (loc, ctx, tr)")
    case (Inl e)
    with init_classifier_fault [OF Inl] show ?thesis by simp
  next
    case (Inr s)
    obtain loc1 ctx1 tr1 where s: "s = (loc1, ctx1, tr1)" by (cases s)
    have "x \<noteq> clf"
    proof
      assume "x = clf"
      with init_classifier_unresolved [OF Cons.prems(2-4) assms(5), of P cfg loc tr] Inr
      show False by simp
    qed
    with Cons.prems(1) have mem: "clf \<in> set cur" by simp
    from init_classifier_tables [OF Inr [unfolded s]] Cons.prems(2-4)
    have t: "backends_subrs ctx1 = stat_backends B" "classifiers_subrs ctx1 = stat_classifiers"
      "caches_subrs ctx1 = stat_caches B"
      by simp_all
    from Cons.IH [OF mem t, of loc1 tr1] Inr s show ?thesis by simp
  qed
qed

subsection \<open>Names that all resolve\<close>

text \<open>
  With every name resolved no assertion fails, whatever the providers return: the
  iteration returns, and leaves a tokenizer configuration and a cache name that
  resolves for the next one.
\<close>

lemma init_classifier_returns:
  assumes tables: "backends_subrs ctx = stat_backends B" "classifiers_subrs ctx = stat_classifiers"
      "caches_subrs ctx = stat_caches B" "tokenizers_subrs ctx = stat_tokenizers"
    and names: "names_resolve B clf"
    and tok: "tkcf ctx \<noteq> None \<or>
              get_subr tokenizer_name stat_tokenizers (RSPAMD_DEFAULT_TOKENIZER B)
                (tkc_name (clf_tokenizer clf)) \<noteq> None"
    and var: "get_subr cache_name (stat_caches B) (RSPAMD_DEFAULT_CACHE B) (snd loc) \<noteq> None"
  shows "\<exists>loc' ctx' tr'. init_classifier B P cfg clf (loc, ctx, tr) = Inr (loc', ctx', tr') \<and>
           tkcf ctx' \<noteq> None \<and>
           get_subr cache_name (stat_caches B) (RSPAMD_DEFAULT_CACHE B) (snd loc') \<noteq> None"
proof -
  from names obtain bk subrs where
    bk: "get_subr backend_name (stat_backends B) (RSPAMD_DEFAULT_BACKEND B)
        (clf_backend clf) = Some bk"
    and su: "get_subr classifier_name stat_classifiers (RSPAMD_DEFAULT_CLASSIFIER B)
        (clf_classifier clf) = Some subrs"
    and cn: "get_subr cache_name (stat_caches B) (RSPAMD_DEFAULT_CACHE B)
        (clf_cache_name clf) \<noteq> None"
    by (auto simp add: names_resolve_def)
  from cn var have "get_subr cache_name (stat_caches B) (RSPAMD_DEFAULT_CACHE B)
      (snd (find_cache clf loc)) \<noteq> None"
    by (simp add: snd_find_cache split: option.splits)
  then obtain cache where
    ca: "get_subr cache_name (stat_caches B) (RSPAMD_DEFAULT_CACHE B)
      (snd (find_cache clf loc)) = Some cache"
    by auto
  have "\<exists>ctx1 tr1. init_tokenizer B P clf (ctx, tr) = Inr (ctx1, tr1) \<and> tkcf ctx1 \<noteq> None"
  proof (cases "tkcf ctx")
    case None
    with tok obtain tk where
      "get_subr tokenizer_name stat_tokenizers (RSPAMD_DEFAULT_TOKENIZER B)
         (tkc_name (clf_tokenizer clf)) = Some tk"
      by auto
    with None tables(4) show ?thesis
      by (simp add: init_tokenizer_def rspamd_stat_get_tokenizer_def)
  next
    case (Some p)
    then show ?thesis
      by (simp add: init_tokenizer_def)
  qed
  then obtain ctx1 tr1 where
    tk: "init_tokenizer B P clf (ctx, tr) = Inr (ctx1, tr1)" and t1: "tkcf ctx1 \<noteq> None"
    by blast
  from init_tokenizer_cases [OF tk] tables have same:
    "classifiers_subrs ctx1 = stat_classifiers" "caches_subrs ctx1 = stat_caches B"
    by auto
  obtain ctx2 cl2 tr2 where
    st: "init_statfiles P cfg bk (clf_statfiles clf)
       (ctx1,
        \<lparr>cl_cfg = clf, cl_statfiles_ids = [], cl_subrs = Some subrs, cl_cache = Some cache,
         cl_cachecf = cache_init P cache ctx1 cfg (fst (find_cache clf loc))
           (tr1 @ [Classifier_init_func subrs
                     \<lparr>cl_cfg = clf, cl_statfiles_ids = [], cl_subrs = Some subrs,
                      cl_cache = None, cl_cachecf = None\<rparr>])\<rparr>,
        tr1 @ [Classifier_init_func subrs
                \<lparr>cl_cfg = clf, cl_statfiles_ids = [], cl_subrs = Some subrs,
                 cl_cache = None, cl_cachecf = None\<rparr>,
               Cache_init cache (fst (find_cache clf loc))]) = (ctx2, cl2, tr2)"
    using prod_cases3 by blast
  have run: "init_classifier B P cfg clf (loc, ctx, tr) =
      Inr (find_cache clf loc, ctx2\<lparr>classifiers := classifiers ctx2 @ [cl2]\<rparr>, tr2)"
    using bk su ca tk st same tables
    by (simp add: init_classifier_def rspamd_stat_get_backend_def
        rspamd_stat_get_classifier_def rspamd_stat_get_cache_def Let_def)
  have "tkcf (ctx2\<lparr>classifiers := classifiers ctx2 @ [cl2]\<rparr>) \<noteq> None"
  proof (cases "tkcf ctx")
    case None
    from init_classifier_tokenizer(2) [OF run None] show ?thesis by auto
  next
    case (Some p)
    then have "tkcf ctx \<noteq> None" by simp
    from init_classifier_tokenizer(1) [OF run this] Some show ?thesis by simp
  qed
  with run ca show ?thesis by simp
qed

lemma init_classifiers_returns:
  assumes "backends_subrs ctx = stat_backends B" "classifiers_subrs ctx = stat_classifiers"
      "caches_subrs ctx = stat_caches B" "tokenizers_subrs ctx = stat_tokenizers"
    and "list_all (names_resolve B) clfs"
    and "case clfs of [] \<Rightarrow> True
         | clf # rest \<Rightarrow> tkcf ctx \<noteq> None \<or>
             get_subr tokenizer_name stat_tokenizers (RSPAMD_DEFAULT_TOKENIZER B)
               (tkc_name (clf_tokenizer clf)) \<noteq> None"
    and "get_subr cache_name (stat_caches B) (RSPAMD_DEFAULT_CACHE B) (snd loc) \<noteq> None"
  shows "\<exists>s. init_classifiers B P cfg clfs (loc, ctx, tr) = Inr s"
  using assms
proof (induction clfs arbitrary: loc ctx tr)
  case Nil
  show ?case by simp
next
  case (Cons clf cur)
  from Cons.prems(5) have n: "names_resolve B clf" "list_all (names_resolve B) cur"
    by simp_all
  from Cons.prems(6) have tok: "tkcf ctx \<noteq> None \<or>
             get_subr tokenizer_name stat_tokenizers (RSPAMD_DEFAULT_TOKENIZER B)
               (tkc_name (clf_tokenizer clf)) \<noteq> None"
    by simp
  from init_classifier_returns [OF Cons.prems(1-4) n(1) tok Cons.prems(7), of P cfg tr]
  obtain loc1 ctx1 tr1 where
    s: "init_classifier B P cfg clf (loc, ctx, tr) = Inr (loc1, ctx1, tr1)"
    and k: "tkcf ctx1 \<noteq> None"
      "get_subr cache_name (stat_caches B) (RSPAMD_DEFAULT_CACHE B) (snd loc1) \<noteq> None"
    by blast
  from init_classifier_tables [OF s] Cons.prems(1-4)
  have t: "backends_subrs ctx1 = stat_backends B" "classifiers_subrs ctx1 = stat_classifiers"
      "caches_subrs ctx1 = stat_caches B" "tokenizers_subrs ctx1 = stat_tokenizers"
    by simp_all
  from k(1) have tok1: "case cur of [] \<Rightarrow> True
         | clf # rest \<Rightarrow> tkcf ctx1 \<noteq> None \<or>
             get_subr tokenizer_name stat_tokenizers (RSPAMD_DEFAULT_TOKENIZER B)
               (tkc_name (clf_tokenizer clf)) \<noteq> None"
    by (simp split: list.splits)
  from Cons.IH [OF t n(2) tok1 k(2), of tr1] s show ?case
    by simp
qed

lemma rspamd_stat_init_returns:
  assumes "list_all (names_resolve B) (cfg_classifiers cfg)" "tokenizer_resolves B g cfg"
  shows "\<exists>c tr. rspamd_stat_init B P cfg evb g = Inr (Some c, tr)"
proof -
  have tok: "case cfg_classifiers cfg of [] \<Rightarrow> True
         | clf # rest \<Rightarrow> tkcf (prepare_ctx B cfg evb g) \<noteq> None \<or>
             get_subr tokenizer_name stat_tokenizers (RSPAMD_DEFAULT_TOKENIZER B)
               (tkc_name (clf_tokenizer clf)) \<noteq> None"
    using assms(2)
    by (cases g) (auto simp add: tokenizer_resolves_def prepare_ctx_def zero_ctx_def
        split: list.splits)
  have "\<exists>s. init_classifiers B P cfg (cfg_classifiers cfg)
      ((None, None), prepare_ctx B cfg evb g, []) = Inr s"
    by (rule init_classifiers_returns [OF _ _ _ _ assms(1) tok])
       (simp_all add: prepare_ctx_def get_subr_default_cache)
  then show ?thesis
    by (auto simp add: rspamd_stat_init_def)
qed

subsection \<open>The shape of the result\<close>

lemma boot_structure:
  assumes "rspamd_stat_init B P cfg evb g = Inr (Some c, tr)"
  shows "map cl_cfg (classifiers c) = cfg_classifiers cfg \<and>
         (\<forall>i<length (cfg_classifiers cfg).
            map (\<lambda>(st, r). st_stcf st)
              (filter (\<lambda>(st, r). st_classifier st = i) (backend_inits tr)) =
            clf_statfiles (cfg_classifiers cfg ! i)) \<and>
         map (\<lambda>st. st\<lparr>st_id := 0\<rparr>) (statfiles c) =
           map (\<lambda>(st, r). st\<lparr>st_bkcf := r\<rparr>)
             (filter (\<lambda>(st, r). r \<noteq> None) (backend_inits tr)) \<and>
         map st_id (statfiles c) = [0..<length (statfiles c)] \<and>
         concat (map cl_statfiles_ids (classifiers c)) = [0..<length (statfiles c)] \<and>
         (\<forall>i<length (cfg_classifiers cfg).
            map (\<lambda>n. statfiles c ! n) (cl_statfiles_ids (classifiers c ! i)) =
            filter (\<lambda>st. st_classifier st = i) (statfiles c))"
proof -
  from assms obtain loc where
    run: "init_classifiers B P cfg (cfg_classifiers cfg)
       ((None, None), prepare_ctx B cfg evb g, []) = Inr (loc, c, tr)"
    by (auto elim: rspamd_stat_init_Inr)
  from init_classifiers_extends [OF run]
  have cfgs: "map cl_cfg (classifiers c) = cfg_classifiers cfg"
    by (simp add: prepare_ctx_def)
  have len: "length (classifiers c) = length (cfg_classifiers cfg)"
    using arg_cong [OF cfgs, of length] by simp
  have nth: "cl_cfg (classifiers c ! i) = cfg_classifiers cfg ! i"
    if "i < length (cfg_classifiers cfg)" for i
    using that len nth_map [of i "classifiers c" cl_cfg] by (simp add: cfgs)
  from boot_inv_init [OF assms] have inv: "boot_inv c tr" .
  have a: "map st_id (statfiles c) = [0..<length (statfiles c)]"
    using inv unfolding boot_inv_def by (elim conjE)
  have b: "concat (map cl_statfiles_ids (classifiers c)) = [0..<length (statfiles c)]"
    using inv unfolding boot_inv_def by (elim conjE)
  have d: "map (\<lambda>st. st\<lparr>st_id := 0\<rparr>) (statfiles c) =
           map (\<lambda>(st, r). st\<lparr>st_bkcf := r\<rparr>)
             (filter (\<lambda>(st, r). r \<noteq> None) (backend_inits tr))"
    using inv unfolding boot_inv_def by (elim conjE)
  have e: "\<forall>i<length (classifiers c).
         map (\<lambda>(st, r). st_stcf st)
           (filter (\<lambda>(st, r). st_classifier st = i) (backend_inits tr)) =
         clf_statfiles (cl_cfg (classifiers c ! i))"
    using inv unfolding boot_inv_def by (elim conjE)
  have g: "\<forall>i<length (classifiers c).
         map (\<lambda>n. statfiles c ! n) (cl_statfiles_ids (classifiers c ! i)) =
         filter (\<lambda>st. st_classifier st = i) (statfiles c)"
    using inv unfolding boot_inv_def by (elim conjE)
  from e have e': "\<forall>i<length (cfg_classifiers cfg).
            map (\<lambda>(st, r). st_stcf st)
              (filter (\<lambda>(st, r). st_classifier st = i) (backend_inits tr)) =
            clf_statfiles (cfg_classifiers cfg ! i)"
    using nth len by simp
  from g have g': "\<forall>i<length (cfg_classifiers cfg).
            map (\<lambda>n. statfiles c ! n) (cl_statfiles_ids (classifiers c ! i)) =
            filter (\<lambda>st. st_classifier st = i) (statfiles c)"
    using len by simp
  from cfgs e' d a b g' show ?thesis by (intro conjI)
qed

section \<open>The teardown\<close>

text \<open>
  When the ids are in range, distinct and not yet freed, the loops close the statfiles
  in the order of the ids.
\<close>

lemma close_statfiles_ok:
  assumes "\<forall>i\<in>set ids. i < length (statfiles c)" "distinct ids" "set ids \<inter> set freed = {}"
  shows "close_statfiles c ids (freed, tr) =
     Inr (rev ids @ freed,
          tr @ map (\<lambda>i. Backend_close (st_backend (statfiles c ! i)) (st_bkcf (statfiles c ! i))) ids)"
  using assms
proof (induction ids arbitrary: freed tr)
  case Nil
  then show ?case by simp
next
  case (Cons i ids)
  from Cons.prems have "\<forall>j\<in>set ids. j < length (statfiles c)" "distinct ids"
    "set ids \<inter> set (i # freed) = {}"
    by auto
  from Cons.IH [OF this] Cons.prems show ?case
    by (simp add: Let_def)
qed

lemma close_classifiers_ok:
  assumes "\<forall>i\<in>set (concat (map cl_statfiles_ids cls)). i < length (statfiles c)"
    "distinct (concat (map cl_statfiles_ids cls))"
    "set (concat (map cl_statfiles_ids cls)) \<inter> set freed = {}"
  shows "close_classifiers c cls (freed, tr) =
     Inr (rev (concat (map cl_statfiles_ids cls)) @ freed,
          tr @ map (\<lambda>i. Backend_close (st_backend (statfiles c ! i)) (st_bkcf (statfiles c ! i)))
                 (concat (map cl_statfiles_ids cls)))"
  using assms
proof (induction cls arbitrary: freed tr)
  case Nil
  then show ?case by simp
next
  case (Cons cl cls)
  from Cons.prems have h: "\<forall>i\<in>set (cl_statfiles_ids cl). i < length (statfiles c)"
    "distinct (cl_statfiles_ids cl)" "set (cl_statfiles_ids cl) \<inter> set freed = {}"
    by auto
  from Cons.prems have t: "\<forall>i\<in>set (concat (map cl_statfiles_ids cls)). i < length (statfiles c)"
    "distinct (concat (map cl_statfiles_ids cls))"
    "set (concat (map cl_statfiles_ids cls)) \<inter> set (rev (cl_statfiles_ids cl) @ freed) = {}"
    by auto
  show ?case
    by (simp add: close_statfiles_ok [OF h] Cons.IH [OF t])
qed

lemma cleanup_async_elts_eq:
  "cleanup_async_elts elts tr =
     tr @ concat (map (\<lambda>aelt. case cleanup aelt of Some f \<Rightarrow> [Async_cleanup f aelt] | None \<Rightarrow> [])
                    elts)"
  by (induction elts arbitrary: tr) (simp_all split: option.splits)

lemma async_cleanups_concat:
  "async_cleanups
     (concat (map (\<lambda>aelt. case cleanup aelt of Some f \<Rightarrow> [Async_cleanup f aelt] | None \<Rightarrow> []) elts)) =
   concat (map (\<lambda>aelt. case cleanup aelt of Some f \<Rightarrow> [(f, aelt)] | None \<Rightarrow> []) elts)"
  by (induction elts) (simp_all split: option.splits)

lemma backend_closes_concat:
  "backend_closes
     (concat (map (\<lambda>aelt. case cleanup aelt of Some f \<Rightarrow> [Async_cleanup f aelt] | None \<Rightarrow> []) elts)) = []"
  by (induction elts) (simp_all split: option.splits)

lemma backend_closes_map:
  "backend_closes (map (\<lambda>st. Backend_close (st_backend st) (st_bkcf st)) sts) =
     map (\<lambda>st. (st_backend st, st_bkcf st)) sts"
  by (induction sts) simp_all

lemma async_cleanups_map_close:
  "async_cleanups (map (\<lambda>st. Backend_close (st_backend st) (st_bkcf st)) sts) = []"
  by (induction sts) simp_all

text \<open>
  The loops over the classifiers call no cleanup.
\<close>

lemma close_statfiles_calls:
  assumes "close_statfiles c ids (freed, tr) = Inr (freed', tr')"
  shows "\<exists>evs. tr' = tr @ evs \<and> async_cleanups evs = []"
  using assms
proof (induction ids arbitrary: freed tr)
  case Nil
  then show ?case by simp
next
  case (Cons i ids)
  from Cons.prems have
    "close_statfiles c ids (i # freed,
       tr @ [Backend_close (st_backend (statfiles c ! i)) (st_bkcf (statfiles c ! i))]) =
     Inr (freed', tr')"
    by (simp add: Let_def split: if_splits)
  from Cons.IH [OF this] show ?case by auto
qed

lemma close_classifiers_calls:
  assumes "close_classifiers c cls (freed, tr) = Inr (freed', tr')"
  shows "\<exists>evs. tr' = tr @ evs \<and> async_cleanups evs = []"
  using assms
proof (induction cls arbitrary: freed tr)
  case Nil
  then show ?case by simp
next
  case (Cons cl cls)
  from Cons.prems obtain freed1 tr1 where
    a: "close_statfiles c (cl_statfiles_ids cl) (freed, tr) = Inr (freed1, tr1)"
    and b: "close_classifiers c cls (freed1, tr1) = Inr (freed', tr')"
    by (auto simp add: bind_fault_Inr)
  from close_statfiles_calls [OF a] Cons.IH [OF b] show ?case by auto
qed

text \<open>
  A teardown that returns has gone through the queue after the classifiers.
\<close>

lemma close_drains_queue:
  assumes "rspamd_stat_close (Some c) = Inr (g', tr)"
  shows "\<exists>freed closes.
     close_classifiers c (classifiers c) ([], []) = Inr (freed, closes) \<and>
     async_cleanups closes = [] \<and>
     tr = closes @
       concat (map (\<lambda>aelt. case cleanup aelt of Some f \<Rightarrow> [Async_cleanup f aelt] | None \<Rightarrow> [])
                 (async_elts c)) \<and>
     async_cleanups tr =
       concat (map (\<lambda>aelt. case cleanup aelt of Some f \<Rightarrow> [(f, aelt)] | None \<Rightarrow> [])
                 (async_elts c))"
proof -
  from assms obtain freed closes where
    a: "close_classifiers c (classifiers c) ([], []) = Inr (freed, closes)"
    and b: "tr = cleanup_async_elts (async_elts c) closes"
    by (auto simp add: rspamd_stat_close_def rspamd_stat_get_ctx_def bind_fault_Inr)
  from close_classifiers_calls [OF a] have "async_cleanups closes = []" by auto
  with a b show ?thesis
    by (simp add: cleanup_async_elts_eq async_cleanups_concat)
qed

text \<open>
  Teardown of a context whose owned ids are all the positions, whatever its queue.
\<close>

lemma close_after_boot:
  assumes "concat (map cl_statfiles_ids (classifiers c)) = [0..<length (statfiles c)]"
  shows "rspamd_stat_close (Some (c\<lparr>async_elts := q\<rparr>)) =
     Inr (None,
          map (\<lambda>st. Backend_close (st_backend st) (st_bkcf st)) (statfiles c) @
          concat (map (\<lambda>aelt. case cleanup aelt of Some f \<Rightarrow> [Async_cleanup f aelt] | None \<Rightarrow> []) q))"
proof -
  have "close_classifiers (c\<lparr>async_elts := q\<rparr>) (classifiers c) ([], []) =
      Inr (rev [0..<length (statfiles c)],
           map (\<lambda>st. Backend_close (st_backend st) (st_bkcf st)) (statfiles c))"
    using close_classifiers_ok [of "classifiers c" "c\<lparr>async_elts := q\<rparr>" "[]" "[]"] assms
      map_nth_upt [of "\<lambda>st. Backend_close (st_backend st) (st_bkcf st)" "statfiles c"]
    by (simp del: upt_Suc)
  then show ?thesis
    by (simp add: rspamd_stat_close_def rspamd_stat_get_ctx_def cleanup_async_elts_eq)
qed

section \<open>The examples, evaluated\<close>

lemmas example_defs =
  B0_def P0_def P1_def clf_e_def cfg_e_def cache_a_def clf_a_def clf_b_def clf_c_def cache_d_def clf_d_def clf_redis_def
  clf_svm_def clf_memcached_def cfg_ab_def cfg_ac_def cfg_b_def cfg_d_def cfg_redis_def
  cfg_svm_def cfg_memcached_def mmap_def new_st_def new_cl_def
  statfiles_ab_def classifiers_ab_def ctx_ab_def calls_ab_def ctx_d_def calls_d_def
  queue_ab_def closes_ab_def cleanups_ab_def P2_def ctx_b2_def calls_b2_def closes_b2_def

lemmas boot_defs =
  rspamd_stat_init_def prepare_ctx_def zero_ctx_def init_classifier_def init_tokenizer_def
  find_cache_def rspamd_stat_get_backend_def rspamd_stat_get_classifier_def
  rspamd_stat_get_cache_def rspamd_stat_get_tokenizer_def get_subr_find name_or_default_def
  stat_backends_def stat_caches_def stat_classifiers_def stat_tokenizers_def Let_def

lemmas opts_defs = clf_cache_obj_def clf_cache_name_obj_def clf_cache_name_def

lemma boot_ab: "rspamd_stat_init B0 P0 cfg_ab None None = Inr (Some ctx_ab, calls_ab)"
  by (simp add: boot_defs example_defs)

lemma boot_d: "rspamd_stat_init B0 P0 cfg_d None None = Inr (Some ctx_d, calls_d)"
  by (simp add: boot_defs example_defs)

lemma boot_b_again:
  "\<exists>c tr. rspamd_stat_init B0 P0 cfg_b None (Some ctx_ab) = Inr (Some c, tr)"
  by (simp add: boot_defs example_defs)

lemma close_ab:
  "rspamd_stat_close (Some (ctx_ab\<lparr>async_elts := queue_ab\<rparr>)) =
     Inr (None, closes_ab @ cleanups_ab)"
  by (simp add: rspamd_stat_close_def rspamd_stat_get_ctx_def Let_def example_defs)

text \<open>
  A second bootstrap in a process that already holds a context (the test
  \<open>stat_ctx == NULL\<close> then keeps the allocation) starts from new, empty collections
  of statfiles and classifiers; the teardown after it closes the statfiles of the
  second bootstrap.
\<close>

lemma boot_b2:
  "rspamd_stat_init B0 P2 cfg_b None (Some ctx_ab) = Inr (Some ctx_b2, calls_b2)"
  by (simp add: boot_defs example_defs)

lemma close_b2: "rspamd_stat_close (Some ctx_b2) = Inr (None, closes_b2)"
  by (simp add: rspamd_stat_close_def rspamd_stat_get_ctx_def Let_def example_defs)

text \<open>
  The two scenarios of section 8 of the spec: one classifier definition with algorithm
  \<open>bayes\<close>, backend \<open>mmap\<close>, tokenizer \<open>osb\<close>, no options and the statfile symbols
  \<open>BAYES_SPAM\<close> and \<open>BAYES_HAM\<close>. When the backend initializer succeeds for both, the
  classifier owns the ids 0 and 1; when it fails for \<open>BAYES_HAM\<close>, the classifier owns
  the id 0 alone and the collection has one statfile. The cache is the default one.
\<close>

lemma end_to_end:
  "\<exists>c tr. rspamd_stat_init B0 P1 cfg_e None None = Inr (Some c, tr) \<and>
     map cl_statfiles_ids (classifiers c) = [[0, 1]] \<and>
     map cl_cache (classifiers c) = [Some \<lparr>cache_name = ''sqlite3''\<rparr>] \<and>
     length (statfiles c) = 2"
  by (simp add: boot_defs example_defs)

lemma end_to_end_failure:
  "\<exists>c tr. rspamd_stat_init B0 P0 cfg_e None None = Inr (Some c, tr) \<and>
     map cl_statfiles_ids (classifiers c) = [[0]] \<and>
     map cl_cache (classifiers c) = [Some \<lparr>cache_name = ''sqlite3''\<rparr>] \<and>
     length (statfiles c) = 1"
  by (simp add: boot_defs example_defs)

text \<open>
  The variables \<open>cache_obj\<close> and \<open>cache_name\<close> keep their values from one iteration to
  the next: a definition without options that follows \<open>clf_a\<close> has its cache
  initialized with the \<open>cache\<close> sub-tree of \<open>clf_a\<close>.
\<close>

lemma stale_cache_options:
  "\<exists>c tr. rspamd_stat_init B0 P0 cfg_ac None None = Inr (Some c, tr) \<and>
     clf_opts (cfg_classifiers cfg_ac ! 1) = None \<and>
     cache_inits tr ! 1 = (\<lparr>cache_name = ''sqlite3''\<rparr>, Some cache_a)"
  by (simp add: boot_defs example_defs)

section \<open>The claims\<close>

text \<open>
  C1, as stated, fails: the definition \<open>clf_d\<close> has no \<open>cache.name\<close> value, and the
  options passed to the initializer of its cache are its \<open>cache\<close> sub-tree, not absent.
\<close>

theorem cache_options_absent_counterexample:
  "rspamd_stat_init B0 P0 cfg_d None None = Inr (Some ctx_d, calls_d) \<and>
   clf_cache_name_obj (cfg_classifiers cfg_d ! 0) = None \<and>
   snd (cache_inits calls_d ! 0) = Some cache_d"
  using boot_d by (simp add: opts_defs cfg_d_def clf_d_def cache_d_def calls_d_def)

text \<open>
  C1, amended. For a bootstrap that returns and a classifier definition at position
  \<open>i\<close> whose options contain no nested \<open>cache.name\<close> value: the cache descriptor stored
  on the classifier at position \<open>i\<close>, and the one whose initializer is called for it, is
  the entry named by the default cache name, whatever definitions came before; and the
  options passed to that initializer are the \<open>cache\<close> sub-tree of the definition itself
  (absent when its options have no \<open>cache\<close> entry), provided the definition has an
  options sub-tree or no earlier definition of the call has a \<open>cache\<close> sub-tree.
\<close>

theorem cache_default_and_own_options:
  assumes "rspamd_stat_init B P cfg evb g = Inr (Some c, tr)"
    and "i < length (cfg_classifiers cfg)"
    and "clf_cache_name_obj (cfg_classifiers cfg ! i) = None"
  shows "cl_cache (classifiers c ! i) = Some \<lparr>cache_name = RSPAMD_DEFAULT_CACHE B\<rparr> \<and>
         fst (cache_inits tr ! i) = \<lparr>cache_name = RSPAMD_DEFAULT_CACHE B\<rparr> \<and>
         (clf_opts (cfg_classifiers cfg ! i) \<noteq> None \<or>
          (\<forall>j<i. clf_cache_obj (cfg_classifiers cfg ! j) = None) \<longrightarrow>
          snd (cache_inits tr ! i) = clf_cache_obj (cfg_classifiers cfg ! i))"
proof -
  from assms(1) obtain loc where
    run: "init_classifiers B P cfg (cfg_classifiers cfg)
       ((None, None), prepare_ctx B cfg evb g, []) = Inr (loc, c, tr)"
    by (auto elim: rspamd_stat_init_Inr)
  have tab: "caches_subrs (prepare_ctx B cfg evb g) = stat_caches B"
    by (simp add: prepare_ctx_def)
  from init_classifiers_cache [OF run tab assms(2)]
  have k: "cl_cache (classifiers c ! i) = Some \<lparr>cache_name = RSPAMD_DEFAULT_CACHE B\<rparr>"
    "cache_inits tr ! i =
       (\<lparr>cache_name = RSPAMD_DEFAULT_CACHE B\<rparr>,
        fst (fold find_cache (take (Suc i) (cfg_classifiers cfg)) (None, None)))"
    by (simp_all add: prepare_ctx_def)
  have "snd (cache_inits tr ! i) = clf_cache_obj (cfg_classifiers cfg ! i)"
    if "clf_opts (cfg_classifiers cfg ! i) \<noteq> None \<or>
          (\<forall>j<i. clf_cache_obj (cfg_classifiers cfg ! j) = None)"
    using fold_find_cache_own [OF assms(2) that] k(2) by simp
  with k show ?thesis by simp
qed

theorem cache_default_and_own_options_witness:
  "rspamd_stat_init B0 P0 cfg_ab None None = Inr (Some ctx_ab, calls_ab) \<and>
   (1::nat) < length (cfg_classifiers cfg_ab) \<and>
   clf_cache_name_obj (cfg_classifiers cfg_ab ! 1) = None \<and>
   clf_opts (cfg_classifiers cfg_ab ! 1) \<noteq> None \<and>
   cl_cache (classifiers ctx_ab ! 1) = Some \<lparr>cache_name = RSPAMD_DEFAULT_CACHE B0\<rparr> \<and>
   fst (cache_inits calls_ab ! 1) = \<lparr>cache_name = RSPAMD_DEFAULT_CACHE B0\<rparr> \<and>
   snd (cache_inits calls_ab ! 1) = clf_cache_obj (cfg_classifiers cfg_ab ! 1) \<and>
   clf_cache_obj (cfg_classifiers cfg_ab ! 1) = None"
proof -
  have h: "(1::nat) < length (cfg_classifiers cfg_ab)"
    "clf_cache_name_obj (cfg_classifiers cfg_ab ! 1) = None"
    "clf_opts (cfg_classifiers cfg_ab ! 1) \<noteq> None"
    "clf_cache_obj (cfg_classifiers cfg_ab ! 1) = None"
    by (simp_all add: opts_defs cfg_ab_def clf_b_def)
  from cache_default_and_own_options [OF boot_ab h(1,2)] h boot_ab
  show ?thesis by simp
qed

text \<open>
  C2. For a bootstrap that returns on a configuration with a first classifier
  definition \<open>clf\<close>: when no tokenizer configuration is held at entry (no context, or a
  context whose \<open>tkcf\<close> is unset), the context holds the tokenizer descriptor that the
  name in the tokenizer reference of \<open>clf\<close> resolves to and the configuration that
  descriptor builds from that reference, and the configuration builder is called
  exactly once, for \<open>clf\<close>: the references of the later definitions are not read.
  When a tokenizer configuration is already held at entry, it and the descriptor stay as
  they are and no builder is called.
\<close>

theorem one_tokenizer_from_first_definition:
  assumes "rspamd_stat_init B P cfg evb g = Inr (Some c, tr)"
    and "cfg_classifiers cfg = clf # rest"
  shows "((\<forall>c0. g = Some c0 \<longrightarrow> tkcf c0 = None) \<longrightarrow>
           (\<exists>tk. get_subr tokenizer_name stat_tokenizers (RSPAMD_DEFAULT_TOKENIZER B)
                    (tkc_name (clf_tokenizer clf)) = Some tk \<and>
                 tokenizer c = Some tk \<and>
                 tkcf c = Some (get_config P tk (clf_tokenizer clf) []) \<and>
                 tokenizer_get_configs tr = [(tk, clf_tokenizer clf)])) \<and>
         (\<forall>c0. g = Some c0 \<longrightarrow> tkcf c0 \<noteq> None \<longrightarrow>
            tokenizer c = tokenizer c0 \<and> tkcf c = tkcf c0 \<and> tokenizer_get_configs tr = [])"
proof -
  define ctx0 where "ctx0 = prepare_ctx B cfg evb g"
  from assms obtain loc where
    run: "init_classifiers B P cfg (clf # rest) ((None, None), ctx0, []) = Inr (loc, c, tr)"
    unfolding ctx0_def by (auto elim: rspamd_stat_init_Inr)
  then obtain loc1 ctx1 tr1 where
    s: "init_classifier B P cfg clf ((None, None), ctx0, []) = Inr (loc1, ctx1, tr1)"
    and r: "init_classifiers B P cfg rest (loc1, ctx1, tr1) = Inr (loc, c, tr)"
    by (auto simp add: bind_fault_Inr)
  have tab: "tokenizers_subrs ctx0 = stat_tokenizers"
    by (simp add: ctx0_def prepare_ctx_def)
  have first: "\<exists>tk. get_subr tokenizer_name stat_tokenizers (RSPAMD_DEFAULT_TOKENIZER B)
                    (tkc_name (clf_tokenizer clf)) = Some tk \<and>
                 tokenizer c = Some tk \<and>
                 tkcf c = Some (get_config P tk (clf_tokenizer clf) []) \<and>
                 tokenizer_get_configs tr = [(tk, clf_tokenizer clf)]"
    if "\<forall>c0. g = Some c0 \<longrightarrow> tkcf c0 = None"
  proof -
    from that have "tkcf ctx0 = None"
      by (cases g) (simp_all add: ctx0_def prepare_ctx_def zero_ctx_def)
    from init_classifier_tokenizer(2) [OF s this] tab obtain tk where
      tk: "get_subr tokenizer_name stat_tokenizers (RSPAMD_DEFAULT_TOKENIZER B)
             (tkc_name (clf_tokenizer clf)) = Some tk"
        "tokenizer ctx1 = Some tk" "tkcf ctx1 = Some (get_config P tk (clf_tokenizer clf) [])"
        "tokenizer_get_configs tr1 = [(tk, clf_tokenizer clf)]"
      by auto
    from tk(3) have "tkcf ctx1 \<noteq> None" by simp
    from init_classifiers_tokenizer_kept [OF r this] tk show ?thesis by simp
  qed
  have kept: "tokenizer c = tokenizer c0 \<and> tkcf c = tkcf c0 \<and> tokenizer_get_configs tr = []"
    if "g = Some c0" "tkcf c0 \<noteq> None" for c0
  proof -
    from that have "tkcf ctx0 \<noteq> None" "tkcf ctx0 = tkcf c0" "tokenizer ctx0 = tokenizer c0"
      by (simp_all add: ctx0_def prepare_ctx_def)
    with init_classifiers_tokenizer_kept [OF run] show ?thesis by simp
  qed
  from first kept show ?thesis by blast
qed

theorem one_tokenizer_from_first_definition_witness:
  "rspamd_stat_init B0 P0 cfg_ab None None = Inr (Some ctx_ab, calls_ab) \<and>
   cfg_classifiers cfg_ab = clf_a # [clf_b] \<and>
   tokenizer ctx_ab = Some \<lparr>tokenizer_name = ''osb''\<rparr> \<and>
   tkcf ctx_ab = Some (get_config P0 \<lparr>tokenizer_name = ''osb''\<rparr> (clf_tokenizer clf_a) []) \<and>
   tokenizer_get_configs calls_ab = [(\<lparr>tokenizer_name = ''osb''\<rparr>, clf_tokenizer clf_a)] \<and>
   (\<exists>c tr. rspamd_stat_init B0 P0 cfg_b None (Some ctx_ab) = Inr (Some c, tr) \<and>
      cfg_classifiers cfg_b = clf_b # [] \<and> tkcf ctx_ab \<noteq> None \<and>
      tokenizer c = tokenizer ctx_ab \<and> tkcf c = tkcf ctx_ab \<and> tokenizer_get_configs tr = [])"
proof -
  have l: "cfg_classifiers cfg_ab = clf_a # [clf_b]" by (simp add: cfg_ab_def)
  have tk: "get_subr tokenizer_name stat_tokenizers (RSPAMD_DEFAULT_TOKENIZER B0)
      (tkc_name (clf_tokenizer clf_a)) = Some \<lparr>tokenizer_name = ''osb''\<rparr>"
    by (simp add: get_subr_find stat_tokenizers_def name_or_default_def clf_a_def B0_def)
  from one_tokenizer_from_first_definition [OF boot_ab l] tk
  have 1: "tokenizer ctx_ab = Some \<lparr>tokenizer_name = ''osb''\<rparr> \<and>
   tkcf ctx_ab = Some (get_config P0 \<lparr>tokenizer_name = ''osb''\<rparr> (clf_tokenizer clf_a) []) \<and>
   tokenizer_get_configs calls_ab = [(\<lparr>tokenizer_name = ''osb''\<rparr>, clf_tokenizer clf_a)]"
    by auto
  from boot_b_again obtain c tr where
    r: "rspamd_stat_init B0 P0 cfg_b None (Some ctx_ab) = Inr (Some c, tr)" by blast
  have m: "cfg_classifiers cfg_b = clf_b # []" "tkcf ctx_ab \<noteq> None"
    by (simp_all add: cfg_b_def ctx_ab_def)
  from one_tokenizer_from_first_definition [OF r m(1)] m(2)
  have "tokenizer c = tokenizer ctx_ab \<and> tkcf c = tkcf ctx_ab \<and> tokenizer_get_configs tr = []"
    by blast
  with r m have 2: "\<exists>c tr. rspamd_stat_init B0 P0 cfg_b None (Some ctx_ab) = Inr (Some c, tr) \<and>
      cfg_classifiers cfg_b = clf_b # [] \<and> tkcf ctx_ab \<noteq> None \<and>
      tokenizer c = tokenizer ctx_ab \<and> tkcf c = tkcf ctx_ab \<and> tokenizer_get_configs tr = []"
    by blast
  from boot_ab l 1 2 show ?thesis by (intro conjI) simp_all
qed

text \<open>
  C3, as stated, fails: the collection is not append-only for the life of the context,
  and an id is used again. A bootstrap of \<open>[clf_a, clf_b]\<close> builds \<open>ctx_ab\<close>, with three
  statfiles; a second bootstrap, of \<open>[clf_b]\<close>, in the same process keeps the context
  and replaces its collection by a new one of two statfiles, which is no extension of
  the first; the statfile now at position 0, with id 0, is another one (another symbol,
  another backend state) than the statfile that had id 0 before.
\<close>

theorem statfile_ids_reused_counterexample:
  "rspamd_stat_init B0 P0 cfg_ab None None = Inr (Some ctx_ab, calls_ab) \<and>
   rspamd_stat_init B0 P2 cfg_b None (Some ctx_ab) = Inr (Some ctx_b2, calls_b2) \<and>
   st_id (statfiles ctx_ab ! 0) = 0 \<and>
   st_id (statfiles ctx_b2 ! 0) = 0 \<and>
   st_stcf (statfiles ctx_ab ! 0) = \<lparr>symbol = ''BAYES_SPAM''\<rparr> \<and>
   st_stcf (statfiles ctx_b2 ! 0) = \<lparr>symbol = ''B_SPAM''\<rparr> \<and>
   st_bkcf (statfiles ctx_ab ! 0) = Some 100 \<and>
   st_bkcf (statfiles ctx_b2 ! 0) = Some 200 \<and>
   statfiles ctx_ab ! 0 \<noteq> statfiles ctx_b2 ! 0 \<and>
   length (statfiles ctx_ab) = 3 \<and>
   length (statfiles ctx_b2) = 2 \<and>
   take (length (statfiles ctx_ab)) (statfiles ctx_b2) \<noteq> statfiles ctx_ab"
  using boot_ab boot_b2 by (simp add: ctx_ab_def statfiles_ab_def ctx_b2_def)

text \<open>
  C3, amended. After every call of the bootstrap that returns, from any state of the
  process (with or without a context held at entry), the id of every statfile of the
  collection is its position, so the ids are distinct, whatever initializers failed
  before; and within the call the collection only grows by appending: after any number
  \<open>k\<close> of the classifier definitions the collection built so far is an initial
  segment of the final one. The call starts from an empty collection.
\<close>

theorem statfile_ids_are_positions:
  assumes "rspamd_stat_init B P cfg evb g = Inr (Some c, tr)"
  shows "(\<forall>i<length (statfiles c). st_id (statfiles c ! i) = i) \<and>
         distinct (map st_id (statfiles c)) \<and>
         (\<forall>k\<le>length (cfg_classifiers cfg). \<exists>loc1 c1 tr1.
            init_classifiers B P cfg (take k (cfg_classifiers cfg))
              ((None, None), prepare_ctx B cfg evb g, []) = Inr (loc1, c1, tr1) \<and>
            (\<exists>sts. statfiles c = statfiles c1 @ sts)) \<and>
         statfiles (prepare_ctx B cfg evb g) = []"
proof -
  from boot_inv_init [OF assms]
  have ids: "map st_id (statfiles c) = [0..<length (statfiles c)]"
    unfolding boot_inv_def by (elim conjE)
  have 1: "\<forall>i<length (statfiles c). st_id (statfiles c ! i) = i"
  proof (intro allI impI)
    fix i assume i: "i < length (statfiles c)"
    then have "st_id (statfiles c ! i) = map st_id (statfiles c) ! i" by simp
    also have "\<dots> = i" using i by (simp only: ids nth_upt)
    finally show "st_id (statfiles c ! i) = i" .
  qed
  have 2: "distinct (map st_id (statfiles c))"
    by (simp only: ids distinct_upt)
  from assms obtain loc where
    run: "init_classifiers B P cfg (cfg_classifiers cfg)
       ((None, None), prepare_ctx B cfg evb g, []) = Inr (loc, c, tr)"
    by (auto elim: rspamd_stat_init_Inr)
  have 3: "\<forall>k\<le>length (cfg_classifiers cfg). \<exists>loc1 c1 tr1.
            init_classifiers B P cfg (take k (cfg_classifiers cfg))
              ((None, None), prepare_ctx B cfg evb g, []) = Inr (loc1, c1, tr1) \<and>
            (\<exists>sts. statfiles c = statfiles c1 @ sts)"
  proof (intro allI impI)
    fix k assume "k \<le> length (cfg_classifiers cfg)"
    have "init_classifiers B P cfg (take k (cfg_classifiers cfg) @ drop k (cfg_classifiers cfg))
       ((None, None), prepare_ctx B cfg evb g, []) = Inr (loc, c, tr)"
      using run by simp
    then obtain loc1 c1 tr1 where
      a: "init_classifiers B P cfg (take k (cfg_classifiers cfg))
        ((None, None), prepare_ctx B cfg evb g, []) = Inr (loc1, c1, tr1)"
      and b: "init_classifiers B P cfg (drop k (cfg_classifiers cfg)) (loc1, c1, tr1) =
        Inr (loc, c, tr)"
      unfolding init_classifiers_append by (auto simp add: bind_fault_Inr)
    from init_classifiers_extends [OF b]
    have "\<exists>sts. statfiles c = statfiles c1 @ sts" by (elim conjE)
    with a show "\<exists>loc1 c1 tr1.
            init_classifiers B P cfg (take k (cfg_classifiers cfg))
              ((None, None), prepare_ctx B cfg evb g, []) = Inr (loc1, c1, tr1) \<and>
            (\<exists>sts. statfiles c = statfiles c1 @ sts)"
      by (intro exI [of _ loc1] exI [of _ c1] exI [of _ tr1] conjI)
  qed
  have 4: "statfiles (prepare_ctx B cfg evb g) = []"
    by (simp add: prepare_ctx_def)
  from 1 2 3 4 show ?thesis by (intro conjI)
qed

theorem statfile_ids_are_positions_witness:
  "rspamd_stat_init B0 P0 cfg_ab None None = Inr (Some ctx_ab, calls_ab) \<and>
   (2::nat) < length (statfiles ctx_ab) \<and>
   st_id (statfiles ctx_ab ! 2) = 2 \<and>
   distinct (map st_id (statfiles ctx_ab)) \<and>
   (1::nat) \<le> length (cfg_classifiers cfg_ab) \<and>
   (\<exists>loc1 c1 tr1.
      init_classifiers B0 P0 cfg_ab (take 1 (cfg_classifiers cfg_ab))
        ((None, None), prepare_ctx B0 cfg_ab None None, []) = Inr (loc1, c1, tr1) \<and>
      (\<exists>sts. statfiles ctx_ab = statfiles c1 @ sts)) \<and>
   statfiles (prepare_ctx B0 cfg_ab None None) = []"
proof -
  have h: "(2::nat) < length (statfiles ctx_ab)" "(1::nat) \<le> length (cfg_classifiers cfg_ab)"
    by (simp_all add: ctx_ab_def statfiles_ab_def cfg_ab_def)
  from statfile_ids_are_positions [OF boot_ab] h boot_ab show ?thesis
    by blast
qed

text \<open>
  C4. A backend initializer that returns no state stops nothing: when the names of
  every definition resolve, the bootstrap returns, whatever the providers return. And
  after a bootstrap that returns, whichever backend initializers failed: there is one
  classifier for each definition, in order; for each classifier the backend
  initializer was called once for each of its statfile definitions, in order; the
  statfile collection is, in order, the statfiles of the calls that returned a state,
  with that state, so a statfile whose initializer failed is not in it; the ids are
  the positions \<open>0, 1, \<dots>\<close> without a gap, so the failure consumed no id; the owned
  ids of the classifiers are exactly those positions; and each classifier owns the
  statfiles that refer back to it.
\<close>

theorem failed_statfile_is_skipped:
  "(list_all (names_resolve B) (cfg_classifiers cfg) \<and> tokenizer_resolves B g cfg \<longrightarrow>
      (\<exists>c tr. rspamd_stat_init B P cfg evb g = Inr (Some c, tr))) \<and>
   (\<forall>c tr. rspamd_stat_init B P cfg evb g = Inr (Some c, tr) \<longrightarrow>
      map cl_cfg (classifiers c) = cfg_classifiers cfg \<and>
      (\<forall>i<length (cfg_classifiers cfg).
         map (\<lambda>(st, r). st_stcf st)
           (filter (\<lambda>(st, r). st_classifier st = i) (backend_inits tr)) =
         clf_statfiles (cfg_classifiers cfg ! i)) \<and>
      map (\<lambda>st. st\<lparr>st_id := 0\<rparr>) (statfiles c) =
        map (\<lambda>(st, r). st\<lparr>st_bkcf := r\<rparr>)
          (filter (\<lambda>(st, r). r \<noteq> None) (backend_inits tr)) \<and>
      map st_id (statfiles c) = [0..<length (statfiles c)] \<and>
      concat (map cl_statfiles_ids (classifiers c)) = [0..<length (statfiles c)] \<and>
      (\<forall>i<length (cfg_classifiers cfg).
         map (\<lambda>n. statfiles c ! n) (cl_statfiles_ids (classifiers c ! i)) =
         filter (\<lambda>st. st_classifier st = i) (statfiles c)))"
proof (intro conjI allI impI)
  assume "list_all (names_resolve B) (cfg_classifiers cfg) \<and> tokenizer_resolves B g cfg"
  then show "\<exists>c tr. rspamd_stat_init B P cfg evb g = Inr (Some c, tr)"
    using rspamd_stat_init_returns by blast
qed (use boot_structure in \<open>blast+\<close>)

theorem failed_statfile_is_skipped_witness:
  "list_all (names_resolve B0) (cfg_classifiers cfg_ab) \<and>
   tokenizer_resolves B0 None cfg_ab \<and>
   rspamd_stat_init B0 P0 cfg_ab None None = Inr (Some ctx_ab, calls_ab) \<and>
   backend_inits calls_ab ! 1 = (new_st ''BAYES_HAM'' 0, None) \<and>
   (1::nat) < length (cfg_classifiers cfg_ab) \<and>
   map cl_cfg (classifiers ctx_ab) = cfg_classifiers cfg_ab \<and>
   map (\<lambda>(st, r). st_stcf st)
     (filter (\<lambda>(st, r). st_classifier st = 0) (backend_inits calls_ab)) =
     clf_statfiles (cfg_classifiers cfg_ab ! 0) \<and>
   map (\<lambda>(st, r). st_stcf st)
     (filter (\<lambda>(st, r). st_classifier st = 1) (backend_inits calls_ab)) =
     clf_statfiles (cfg_classifiers cfg_ab ! 1) \<and>
   map (\<lambda>st. st\<lparr>st_id := 0\<rparr>) (statfiles ctx_ab) =
     map (\<lambda>(st, r). st\<lparr>st_bkcf := r\<rparr>)
       (filter (\<lambda>(st, r). r \<noteq> None) (backend_inits calls_ab)) \<and>
   map st_id (statfiles ctx_ab) = [0..<length (statfiles ctx_ab)] \<and>
   concat (map cl_statfiles_ids (classifiers ctx_ab)) = [0..<length (statfiles ctx_ab)] \<and>
   map (\<lambda>n. statfiles ctx_ab ! n) (cl_statfiles_ids (classifiers ctx_ab ! 0)) =
     filter (\<lambda>st. st_classifier st = 0) (statfiles ctx_ab) \<and>
   length (statfiles ctx_ab) = 3"
proof -
  have h: "backend_inits calls_ab ! 1 = (new_st ''BAYES_HAM'' 0, None)"
    "(0::nat) < length (cfg_classifiers cfg_ab)" "(1::nat) < length (cfg_classifiers cfg_ab)"
    "length (statfiles ctx_ab) = 3"
    by (simp_all add: calls_ab_def cfg_ab_def ctx_ab_def statfiles_ab_def)
  have r: "list_all (names_resolve B0) (cfg_classifiers cfg_ab)"
    "tokenizer_resolves B0 None cfg_ab"
    by (simp_all add: names_resolve_def tokenizer_resolves_def opts_defs get_subr_find
        name_or_default_def stat_backends_def stat_caches_def stat_classifiers_def
        stat_tokenizers_def example_defs)
  from failed_statfile_is_skipped [of B0 cfg_ab None P0 None] h r boot_ab show ?thesis
    by blast
qed

text \<open>
  C5, as stated, fails: a statfile that existed in the context is never closed. After
  the bootstrap of \<open>[clf_a, clf_b]\<close> and a second bootstrap, of \<open>[clf_b]\<close>, in the same
  process, the teardown returns and calls close for the two statfiles of the second
  bootstrap; none of the three statfiles of the first, which the second dropped from
  the context without closing them, is among the close calls.
\<close>

theorem earlier_statfiles_not_closed_counterexample:
  "rspamd_stat_init B0 P0 cfg_ab None None = Inr (Some ctx_ab, calls_ab) \<and>
   rspamd_stat_init B0 P2 cfg_b None (Some ctx_ab) = Inr (Some ctx_b2, calls_b2) \<and>
   rspamd_stat_close (Some ctx_b2) = Inr (None, closes_b2) \<and>
   backend_closes closes_b2 = [(mmap, Some 200), (mmap, Some 201)] \<and>
   (st_backend (statfiles ctx_ab ! 0), st_bkcf (statfiles ctx_ab ! 0)) = (mmap, Some 100) \<and>
   (st_backend (statfiles ctx_ab ! 1), st_bkcf (statfiles ctx_ab ! 1)) = (mmap, Some 101) \<and>
   (st_backend (statfiles ctx_ab ! 2), st_bkcf (statfiles ctx_ab ! 2)) = (mmap, Some 102) \<and>
   (mmap, Some 100) \<notin> set (backend_closes closes_b2) \<and>
   (mmap, Some 101) \<notin> set (backend_closes closes_b2) \<and>
   (mmap, Some 102) \<notin> set (backend_closes closes_b2)"
  using boot_ab boot_b2 close_b2 by (simp add: ctx_ab_def statfiles_ab_def closes_b2_def)

text \<open>
  C5, amended. For the context \<open>c\<close> returned by a call of the bootstrap, from any
  state of the process, with whatever cleanup queue \<open>q\<close> it has when the teardown
  starts: the teardown returns, the context accessor then gives \<open>NULL\<close>, and the close
  calls are, in order, one for each statfile of the collection of \<open>c\<close> (the statfiles
  accepted by that call), with its backend descriptor and its backend state.
\<close>

theorem teardown_closes_every_statfile_once:
  assumes "rspamd_stat_init B P cfg evb g = Inr (Some c, tr)"
  shows "\<exists>g' tr'. rspamd_stat_close (Some (c\<lparr>async_elts := q\<rparr>)) = Inr (g', tr') \<and>
           rspamd_stat_get_ctx g' = None \<and>
           backend_closes tr' = map (\<lambda>st. (st_backend st, st_bkcf st)) (statfiles c)"
proof -
  from boot_inv_init [OF assms]
  have "concat (map cl_statfiles_ids (classifiers c)) = [0..<length (statfiles c)]"
    unfolding boot_inv_def by (elim conjE)
  from close_after_boot [OF this, of q] show ?thesis
    by (simp add: rspamd_stat_get_ctx_def backend_closes_map backend_closes_concat)
qed

theorem teardown_closes_every_statfile_once_witness:
  "rspamd_stat_init B0 P0 cfg_ab None None = Inr (Some ctx_ab, calls_ab) \<and>
   rspamd_stat_close (Some (ctx_ab\<lparr>async_elts := queue_ab\<rparr>)) =
     Inr (None, closes_ab @ cleanups_ab) \<and>
   rspamd_stat_get_ctx None = None \<and>
   backend_closes (closes_ab @ cleanups_ab) =
     map (\<lambda>st. (st_backend st, st_bkcf st)) (statfiles ctx_ab)"
  using teardown_closes_every_statfile_once [OF boot_ab, of queue_ab] boot_ab close_ab
  by auto

text \<open>
  C6. For each of the four kinds, in any context \<open>c\<close>: looking up an unset name
  (\<open>NULL\<close>) or the empty name gives what looking up the default name of the kind
  gives, which is the first entry of the table of \<open>c\<close>, in table order, whose name is
  the default name; and looking up a name \<open>n\<close> that is not empty gives the first entry
  of the table, in table order, whose name equals \<open>n\<close> (\<open>find\<close>), and is absent exactly
  when no entry of the table has the name \<open>n\<close>.
\<close>

theorem lookup_default_first_match:
  "rspamd_stat_get_classifier B (Some c) None = rspamd_stat_get_classifier B (Some c) (Some (RSPAMD_DEFAULT_CLASSIFIER B)) \<and>
   rspamd_stat_get_classifier B (Some c) (Some []) = rspamd_stat_get_classifier B (Some c) (Some (RSPAMD_DEFAULT_CLASSIFIER B)) \<and>
   rspamd_stat_get_classifier B (Some c) None =
     Inr (find (\<lambda>d. classifier_name d = RSPAMD_DEFAULT_CLASSIFIER B) (classifiers_subrs c)) \<and>
   (n \<noteq> [] \<longrightarrow>
      rspamd_stat_get_classifier B (Some c) (Some n) = Inr (find (\<lambda>d. classifier_name d = n) (classifiers_subrs c)) \<and>
      (rspamd_stat_get_classifier B (Some c) (Some n) = Inr None) = (n \<notin> classifier_name ` set (classifiers_subrs c))) \<and>
   rspamd_stat_get_backend B (Some c) None = rspamd_stat_get_backend B (Some c) (Some (RSPAMD_DEFAULT_BACKEND B)) \<and>
   rspamd_stat_get_backend B (Some c) (Some []) = rspamd_stat_get_backend B (Some c) (Some (RSPAMD_DEFAULT_BACKEND B)) \<and>
   rspamd_stat_get_backend B (Some c) None =
     Inr (find (\<lambda>d. backend_name d = RSPAMD_DEFAULT_BACKEND B) (backends_subrs c)) \<and>
   (n \<noteq> [] \<longrightarrow>
      rspamd_stat_get_backend B (Some c) (Some n) = Inr (find (\<lambda>d. backend_name d = n) (backends_subrs c)) \<and>
      (rspamd_stat_get_backend B (Some c) (Some n) = Inr None) = (n \<notin> backend_name ` set (backends_subrs c))) \<and>
   rspamd_stat_get_tokenizer B (Some c) None = rspamd_stat_get_tokenizer B (Some c) (Some (RSPAMD_DEFAULT_TOKENIZER B)) \<and>
   rspamd_stat_get_tokenizer B (Some c) (Some []) = rspamd_stat_get_tokenizer B (Some c) (Some (RSPAMD_DEFAULT_TOKENIZER B)) \<and>
   rspamd_stat_get_tokenizer B (Some c) None =
     Inr (find (\<lambda>d. tokenizer_name d = RSPAMD_DEFAULT_TOKENIZER B) (tokenizers_subrs c)) \<and>
   (n \<noteq> [] \<longrightarrow>
      rspamd_stat_get_tokenizer B (Some c) (Some n) = Inr (find (\<lambda>d. tokenizer_name d = n) (tokenizers_subrs c)) \<and>
      (rspamd_stat_get_tokenizer B (Some c) (Some n) = Inr None) = (n \<notin> tokenizer_name ` set (tokenizers_subrs c))) \<and>
   rspamd_stat_get_cache B (Some c) None = rspamd_stat_get_cache B (Some c) (Some (RSPAMD_DEFAULT_CACHE B)) \<and>
   rspamd_stat_get_cache B (Some c) (Some []) = rspamd_stat_get_cache B (Some c) (Some (RSPAMD_DEFAULT_CACHE B)) \<and>
   rspamd_stat_get_cache B (Some c) None =
     Inr (find (\<lambda>d. cache_name d = RSPAMD_DEFAULT_CACHE B) (caches_subrs c)) \<and>
   (n \<noteq> [] \<longrightarrow>
      rspamd_stat_get_cache B (Some c) (Some n) = Inr (find (\<lambda>d. cache_name d = n) (caches_subrs c)) \<and>
      (rspamd_stat_get_cache B (Some c) (Some n) = Inr None) = (n \<notin> cache_name ` set (caches_subrs c)))"
  by (simp add: rspamd_stat_get_classifier_def rspamd_stat_get_backend_def
      rspamd_stat_get_tokenizer_def rspamd_stat_get_cache_def
      get_subr_named get_subr_unset find_absent)

theorem lookup_default_first_match_witness:
  "''sqlite3'' \<noteq> [] \<and> ''redis'' \<noteq> [] \<and> ''osb'' \<noteq> [] \<and>
   rspamd_stat_get_backend B0 (Some ctx_ab) (Some ''sqlite3'') =
     Inr (find (\<lambda>d. backend_name d = ''sqlite3'') (backends_subrs ctx_ab)) \<and>
   rspamd_stat_get_backend B0 (Some ctx_ab) (Some ''sqlite3'') =
     Inr (Some \<lparr>backend_name = ''sqlite3''\<rparr>) \<and>
   rspamd_stat_get_backend B0 (Some ctx_ab) (Some ''redis'') = Inr None \<and>
   ''redis'' \<notin> backend_name ` set (backends_subrs ctx_ab) \<and>
   rspamd_stat_get_backend B0 (Some ctx_ab) None = Inr (Some \<lparr>backend_name = ''mmap''\<rparr>) \<and>
   rspamd_stat_get_backend B0 (Some ctx_ab) (Some []) = Inr (Some \<lparr>backend_name = ''mmap''\<rparr>) \<and>
   rspamd_stat_get_tokenizer B0 (Some ctx_ab) (Some ''osb'') =
     Inr (Some \<lparr>tokenizer_name = ''osb''\<rparr>) \<and>
   rspamd_stat_get_classifier B0 (Some ctx_ab) (Some ''osb'') = Inr None \<and>
   rspamd_stat_get_cache B0 (Some ctx_ab) (Some ''sqlite3'') =
     Inr (Some \<lparr>cache_name = ''sqlite3''\<rparr>)"
  using lookup_default_first_match [of B0 ctx_ab "''sqlite3''"]
    lookup_default_first_match [of B0 ctx_ab "''redis''"]
    lookup_default_first_match [of B0 ctx_ab "''osb''"]
  by (simp add: ctx_ab_def B0_def stat_backends_def stat_caches_def stat_classifiers_def
      stat_tokenizers_def)

text \<open>
  C7. If some classifier definition of the configuration has a backend name, an
  algorithm name or a cache name (the string at \<open>cache.name\<close> in its options) that
  resolves to no entry of the table of its kind, the bootstrap does not return: it
  stops at a failed assertion, from any state of the process and whatever the
  providers do.
\<close>

theorem unresolved_name_aborts_bootstrap:
  assumes "clf \<in> set (cfg_classifiers cfg)"
    and "get_subr backend_name (stat_backends B) (RSPAMD_DEFAULT_BACKEND B)
           (clf_backend clf) = None \<or>
         get_subr classifier_name stat_classifiers (RSPAMD_DEFAULT_CLASSIFIER B)
           (clf_classifier clf) = None \<or>
         get_subr cache_name (stat_caches B) (RSPAMD_DEFAULT_CACHE B)
           (clf_cache_name clf) = None"
  shows "rspamd_stat_init B P cfg evb g = Inl Assertion_failed"
proof -
  have "init_classifiers B P cfg (cfg_classifiers cfg)
      ((None, None), prepare_ctx B cfg evb g, []) = Inl Assertion_failed"
    by (rule init_classifiers_unresolved [OF assms(1) _ _ _ assms(2)])
       (simp_all add: prepare_ctx_def)
  then show ?thesis
    by (simp add: rspamd_stat_init_def)
qed

theorem unresolved_name_aborts_bootstrap_witness:
  "clf_redis \<in> set (cfg_classifiers cfg_redis) \<and>
   get_subr backend_name (stat_backends B0) (RSPAMD_DEFAULT_BACKEND B0)
     (clf_backend clf_redis) = None \<and>
   rspamd_stat_init B0 P0 cfg_redis None None = Inl Assertion_failed \<and>
   clf_svm \<in> set (cfg_classifiers cfg_svm) \<and>
   get_subr classifier_name stat_classifiers (RSPAMD_DEFAULT_CLASSIFIER B0)
     (clf_classifier clf_svm) = None \<and>
   rspamd_stat_init B0 P0 cfg_svm None None = Inl Assertion_failed \<and>
   clf_memcached \<in> set (cfg_classifiers cfg_memcached) \<and>
   clf_cache_name clf_memcached = Some ''memcached'' \<and>
   get_subr cache_name (stat_caches B0) (RSPAMD_DEFAULT_CACHE B0)
     (clf_cache_name clf_memcached) = None \<and>
   rspamd_stat_init B0 P0 cfg_memcached None None = Inl Assertion_failed"
proof -
  have h: "clf_redis \<in> set (cfg_classifiers cfg_redis)"
    "get_subr backend_name (stat_backends B0) (RSPAMD_DEFAULT_BACKEND B0)
     (clf_backend clf_redis) = None"
    by (simp_all add: cfg_redis_def clf_redis_def clf_b_def get_subr_find stat_backends_def
        B0_def name_or_default_def)
  have k: "clf_svm \<in> set (cfg_classifiers cfg_svm)"
    "get_subr classifier_name stat_classifiers (RSPAMD_DEFAULT_CLASSIFIER B0)
     (clf_classifier clf_svm) = None"
    by (simp_all add: cfg_svm_def clf_svm_def clf_b_def get_subr_find stat_classifiers_def
        B0_def name_or_default_def)
  have m: "clf_memcached \<in> set (cfg_classifiers cfg_memcached)"
    "clf_cache_name clf_memcached = Some ''memcached''"
    "get_subr cache_name (stat_caches B0) (RSPAMD_DEFAULT_CACHE B0)
     (clf_cache_name clf_memcached) = None"
    by (simp_all add: cfg_memcached_def clf_memcached_def clf_b_def get_subr_find
        stat_caches_def B0_def name_or_default_def opts_defs)
  from unresolved_name_aborts_bootstrap [OF h(1) disjI1 [OF h(2)], of P0 None None]
    unresolved_name_aborts_bootstrap [OF k(1) disjI2 [OF disjI1 [OF k(2)]], of P0 None None]
    unresolved_name_aborts_bootstrap [OF m(1) disjI2 [OF disjI2 [OF m(3)]], of P0 None None]
    h k m
  show ?thesis by simp
qed

text \<open>
  C8. A teardown that returns has first run the loops over the classifiers, which
  call no cleanup, and then called the cleanup callbacks of the queue from its head:
  one call for each element that has a callback, none for an element that has none,
  in the order of the queue. And the teardown of a context built by a bootstrap does
  return, whatever queue \<open>q\<close> the context has by then, with exactly those cleanup
  calls.
\<close>

theorem async_queue_drained_fifo:
  "(\<forall>g' tr. rspamd_stat_close (Some c) = Inr (g', tr) \<longrightarrow>
      (\<exists>freed closes.
         close_classifiers c (classifiers c) ([], []) = Inr (freed, closes) \<and>
         async_cleanups closes = [] \<and>
         tr = closes @
           concat (map (\<lambda>aelt. case cleanup aelt of Some f \<Rightarrow> [Async_cleanup f aelt] | None \<Rightarrow> [])
                     (async_elts c)) \<and>
         async_cleanups tr =
           concat (map (\<lambda>aelt. case cleanup aelt of Some f \<Rightarrow> [(f, aelt)] | None \<Rightarrow> [])
                     (async_elts c)))) \<and>
   (\<forall>B P cfg evb g tr0 q. rspamd_stat_init B P cfg evb g = Inr (Some c, tr0) \<longrightarrow>
      (\<exists>tr. rspamd_stat_close (Some (c\<lparr>async_elts := q\<rparr>)) = Inr (None, tr) \<and>
         async_cleanups tr =
           concat (map (\<lambda>aelt. case cleanup aelt of Some f \<Rightarrow> [(f, aelt)] | None \<Rightarrow> []) q)))"
proof (intro conjI allI impI)
  fix g' tr
  assume "rspamd_stat_close (Some c) = Inr (g', tr)"
  then show "\<exists>freed closes.
         close_classifiers c (classifiers c) ([], []) = Inr (freed, closes) \<and>
         async_cleanups closes = [] \<and>
         tr = closes @
           concat (map (\<lambda>aelt. case cleanup aelt of Some f \<Rightarrow> [Async_cleanup f aelt] | None \<Rightarrow> [])
                     (async_elts c)) \<and>
         async_cleanups tr =
           concat (map (\<lambda>aelt. case cleanup aelt of Some f \<Rightarrow> [(f, aelt)] | None \<Rightarrow> [])
                     (async_elts c))"
    by (rule close_drains_queue)
next
  fix B P cfg evb g tr0 q
  assume "rspamd_stat_init B P cfg evb g = Inr (Some c, tr0)"
  from boot_inv_init [OF this]
  have "concat (map cl_statfiles_ids (classifiers c)) = [0..<length (statfiles c)]"
    unfolding boot_inv_def by (elim conjE)
  from close_after_boot [OF this, of q]
  show "\<exists>tr. rspamd_stat_close (Some (c\<lparr>async_elts := q\<rparr>)) = Inr (None, tr) \<and>
         async_cleanups tr =
           concat (map (\<lambda>aelt. case cleanup aelt of Some f \<Rightarrow> [(f, aelt)] | None \<Rightarrow> []) q)"
    by (simp add: async_cleanups_concat async_cleanups_map_close)
qed

theorem async_queue_drained_fifo_witness:
  "rspamd_stat_close (Some (ctx_ab\<lparr>async_elts := queue_ab\<rparr>)) =
     Inr (None, closes_ab @ cleanups_ab) \<and>
   async_cleanups (closes_ab @ cleanups_ab) =
     [(41, \<lparr>cleanup = Some 41, ud = Some 1\<rparr>), (43, \<lparr>cleanup = Some 43, ud = None\<rparr>)] \<and>
   close_classifiers (ctx_ab\<lparr>async_elts := queue_ab\<rparr>) classifiers_ab ([], []) =
     Inr ([2, 1, 0], closes_ab) \<and>
   async_cleanups closes_ab = [] \<and>
   rspamd_stat_init B0 P0 cfg_ab None None = Inr (Some ctx_ab, calls_ab)"
  using async_queue_drained_fifo [of "ctx_ab\<lparr>async_elts := queue_ab\<rparr>"]
    async_queue_drained_fifo [of ctx_ab] close_ab boot_ab
  by (simp add: example_defs Let_def)

text \<open>
  C9. Each of the four lookups reads the tables through \<open>stat_ctx\<close> before anything
  else: with no context the read goes through \<open>NULL\<close> (the fault \<open>Null_dereference\<close>
  stands for it), and with a context it returns a result, never that fault. Teardown
  asserts that the context exists: with none it stops at the failed assertion and does
  not return.
\<close>

theorem accessors_and_close_need_context:
  "rspamd_stat_get_classifier B None name = Inl Null_dereference \<and>
   rspamd_stat_get_backend B None name = Inl Null_dereference \<and>
   rspamd_stat_get_tokenizer B None name = Inl Null_dereference \<and>
   rspamd_stat_get_cache B None name = Inl Null_dereference \<and>
   (\<exists>r. rspamd_stat_get_classifier B (Some c) name = Inr r) \<and>
   (\<exists>r. rspamd_stat_get_backend B (Some c) name = Inr r) \<and>
   (\<exists>r. rspamd_stat_get_tokenizer B (Some c) name = Inr r) \<and>
   (\<exists>r. rspamd_stat_get_cache B (Some c) name = Inr r) \<and>
   rspamd_stat_close None = Inl Assertion_failed"
  by (simp add: rspamd_stat_get_classifier_def rspamd_stat_get_backend_def
      rspamd_stat_get_tokenizer_def rspamd_stat_get_cache_def rspamd_stat_close_def
      rspamd_stat_get_ctx_def)

text \<open>
  C10. For the context \<open>c\<close> of a bootstrap that returns: every id owned by a
  classifier is less than the length of the statfile collection, the statfile at that
  index has that id and refers back to that classifier; the owned ids of two
  classifiers at different positions have nothing in common, and no id is owned twice;
  the owned ids of the classifiers, one classifier after the other, are all the
  positions of the collection, each once, and every statfile is owned by the
  classifier it refers back to. So the teardown, with whatever cleanup queue \<open>q\<close>,
  returns (no lookup is out of range and no statfile is closed after it was freed), and
  its close calls are, classifier by classifier and owned id by owned id, the backend
  and state of the statfile at that id: one close for each statfile of the collection,
  in the order of the collection.
\<close>

theorem owned_ids_index_own_statfiles:
  assumes "rspamd_stat_init B P cfg evb g = Inr (Some c, tr)"
  shows "(\<forall>i<length (classifiers c). \<forall>n\<in>set (cl_statfiles_ids (classifiers c ! i)).
            n < length (statfiles c) \<and> st_id (statfiles c ! n) = n \<and>
            st_classifier (statfiles c ! n) = i) \<and>
         (\<forall>i<length (classifiers c). \<forall>j<length (classifiers c). i \<noteq> j \<longrightarrow>
            set (cl_statfiles_ids (classifiers c ! i)) \<inter>
            set (cl_statfiles_ids (classifiers c ! j)) = {}) \<and>
         distinct (concat (map cl_statfiles_ids (classifiers c))) \<and>
         (\<exists>tr'. rspamd_stat_close (Some c) = Inr (None, tr')) \<and>
         concat (map cl_statfiles_ids (classifiers c)) = [0..<length (statfiles c)] \<and>
         (\<forall>n<length (statfiles c).
            st_classifier (statfiles c ! n) < length (classifiers c) \<and>
            n \<in> set (cl_statfiles_ids (classifiers c ! st_classifier (statfiles c ! n)))) \<and>
         (\<exists>tr'. rspamd_stat_close (Some (c\<lparr>async_elts := q\<rparr>)) = Inr (None, tr') \<and>
            backend_closes tr' =
              concat (map (\<lambda>cl. map (\<lambda>n. (st_backend (statfiles c ! n), st_bkcf (statfiles c ! n)))
                                  (cl_statfiles_ids cl))
                        (classifiers c)) \<and>
            backend_closes tr' = map (\<lambda>st. (st_backend st, st_bkcf st)) (statfiles c))"
proof -
  from boot_inv_init [OF assms] have inv: "boot_inv c tr" .
  have a: "map st_id (statfiles c) = [0..<length (statfiles c)]"
    using inv unfolding boot_inv_def by (elim conjE)
  have b: "concat (map cl_statfiles_ids (classifiers c)) = [0..<length (statfiles c)]"
    using inv unfolding boot_inv_def by (elim conjE)
  have cc: "\<forall>i<length (classifiers c). \<forall>n\<in>set (cl_statfiles_ids (classifiers c ! i)).
         n < length (statfiles c) \<and> st_classifier (statfiles c ! n) = i"
    using inv unfolding boot_inv_def by (elim conjE)
  have id: "st_id (statfiles c ! n) = n" if "n < length (statfiles c)" for n
  proof -
    from that have "st_id (statfiles c ! n) = map st_id (statfiles c) ! n" by simp
    also have "\<dots> = n" using that by (simp only: a nth_upt)
    finally show ?thesis .
  qed
  have 1: "\<forall>i<length (classifiers c). \<forall>n\<in>set (cl_statfiles_ids (classifiers c ! i)).
            n < length (statfiles c) \<and> st_id (statfiles c ! n) = n \<and>
            st_classifier (statfiles c ! n) = i"
  proof (intro allI impI ballI)
    fix i n
    assume "i < length (classifiers c)" "n \<in> set (cl_statfiles_ids (classifiers c ! i))"
    with cc have "n < length (statfiles c) \<and> st_classifier (statfiles c ! n) = i"
      by simp
    with id [of n] show "n < length (statfiles c) \<and> st_id (statfiles c ! n) = n \<and>
            st_classifier (statfiles c ! n) = i"
      by simp
  qed
  have 2: "\<forall>i<length (classifiers c). \<forall>j<length (classifiers c). i \<noteq> j \<longrightarrow>
            set (cl_statfiles_ids (classifiers c ! i)) \<inter>
            set (cl_statfiles_ids (classifiers c ! j)) = {}"
  proof (intro allI impI)
    fix i j
    assume ij: "i < length (classifiers c)" "j < length (classifiers c)" "i \<noteq> j"
    show "set (cl_statfiles_ids (classifiers c ! i)) \<inter>
            set (cl_statfiles_ids (classifiers c ! j)) = {}"
    proof (rule ccontr)
      assume "set (cl_statfiles_ids (classifiers c ! i)) \<inter>
            set (cl_statfiles_ids (classifiers c ! j)) \<noteq> {}"
      then obtain n where n: "n \<in> set (cl_statfiles_ids (classifiers c ! i))"
        "n \<in> set (cl_statfiles_ids (classifiers c ! j))"
        by auto
      from cc ij(1) n(1) have "st_classifier (statfiles c ! n) = i" by simp
      moreover from cc ij(2) n(2) have "st_classifier (statfiles c ! n) = j" by simp
      ultimately show False using ij(3) by simp
    qed
  qed
  have 3: "distinct (concat (map cl_statfiles_ids (classifiers c)))"
    by (simp only: b distinct_upt)
  from close_after_boot [OF b, of "async_elts c"]
  have 4: "\<exists>tr'. rspamd_stat_close (Some c) = Inr (None, tr')"
    by simp
  have 5: "\<forall>n<length (statfiles c).
            st_classifier (statfiles c ! n) < length (classifiers c) \<and>
            n \<in> set (cl_statfiles_ids (classifiers c ! st_classifier (statfiles c ! n)))"
  proof (intro allI impI)
    fix n
    assume "n < length (statfiles c)"
    then have "n \<in> set (concat (map cl_statfiles_ids (classifiers c)))"
      by (simp only: b) simp
    then obtain cl where cl: "cl \<in> set (classifiers c)" "n \<in> set (cl_statfiles_ids cl)"
      by auto
    from cl(1) obtain i where i: "i < length (classifiers c)" "classifiers c ! i = cl"
      by (auto simp add: in_set_conv_nth)
    from cc i cl(2) have "st_classifier (statfiles c ! n) = i"
      by simp
    with i cl(2)
    show "st_classifier (statfiles c ! n) < length (classifiers c) \<and>
            n \<in> set (cl_statfiles_ids (classifiers c ! st_classifier (statfiles c ! n)))"
      by simp
  qed
  let ?f = "\<lambda>st. (st_backend st, st_bkcf st)"
  have "map ?f (statfiles c) = map (\<lambda>n. ?f (statfiles c ! n)) [0..<length (statfiles c)]"
    by (simp only: map_nth_upt [of ?f "statfiles c"])
  also have "\<dots> = map (\<lambda>n. ?f (statfiles c ! n)) (concat (map cl_statfiles_ids (classifiers c)))"
    by (simp only: b)
  also have "\<dots> = concat (map (\<lambda>cl. map (\<lambda>n. ?f (statfiles c ! n)) (cl_statfiles_ids cl))
                            (classifiers c))"
    by (simp only: map_concat map_map o_def)
  finally have e: "map ?f (statfiles c) =
      concat (map (\<lambda>cl. map (\<lambda>n. ?f (statfiles c ! n)) (cl_statfiles_ids cl)) (classifiers c))" .
  have "\<exists>tr'. rspamd_stat_close (Some (c\<lparr>async_elts := q\<rparr>)) = Inr (None, tr') \<and>
            backend_closes tr' = map ?f (statfiles c)"
    using close_after_boot [OF b, of q]
    by (simp add: backend_closes_map backend_closes_concat)
  then obtain tr' where t: "rspamd_stat_close (Some (c\<lparr>async_elts := q\<rparr>)) = Inr (None, tr')"
    "backend_closes tr' = map ?f (statfiles c)"
    by (elim exE conjE)
  from t(2) e have "backend_closes tr' =
      concat (map (\<lambda>cl. map (\<lambda>n. ?f (statfiles c ! n)) (cl_statfiles_ids cl)) (classifiers c))"
    by (rule trans)
  with t have 6: "\<exists>tr'. rspamd_stat_close (Some (c\<lparr>async_elts := q\<rparr>)) = Inr (None, tr') \<and>
            backend_closes tr' =
              concat (map (\<lambda>cl. map (\<lambda>n. (st_backend (statfiles c ! n), st_bkcf (statfiles c ! n)))
                                  (cl_statfiles_ids cl))
                        (classifiers c)) \<and>
            backend_closes tr' = map (\<lambda>st. (st_backend st, st_bkcf st)) (statfiles c)"
    by (intro exI [of _ tr'] conjI)
  from 1 2 3 4 b 5 6 show ?thesis by (intro conjI)
qed

theorem owned_ids_index_own_statfiles_witness:
  "rspamd_stat_init B0 P0 cfg_ab None None = Inr (Some ctx_ab, calls_ab) \<and>
   (1::nat) < length (classifiers ctx_ab) \<and>
   (2::nat) \<in> set (cl_statfiles_ids (classifiers ctx_ab ! 1)) \<and>
   (2::nat) < length (statfiles ctx_ab) \<and>
   st_id (statfiles ctx_ab ! 2) = 2 \<and>
   st_classifier (statfiles ctx_ab ! 2) = 1 \<and>
   set (cl_statfiles_ids (classifiers ctx_ab ! 0)) \<inter>
     set (cl_statfiles_ids (classifiers ctx_ab ! 1)) = {} \<and>
   distinct (concat (map cl_statfiles_ids (classifiers ctx_ab))) \<and>
   (\<exists>tr'. rspamd_stat_close (Some ctx_ab) = Inr (None, tr')) \<and>
   concat (map cl_statfiles_ids (classifiers ctx_ab)) = [0..<length (statfiles ctx_ab)] \<and>
   (1::nat) < length (statfiles ctx_ab) \<and>
   st_classifier (statfiles ctx_ab ! 1) < length (classifiers ctx_ab) \<and>
   (1::nat) \<in> set (cl_statfiles_ids (classifiers ctx_ab ! st_classifier (statfiles ctx_ab ! 1))) \<and>
   rspamd_stat_close (Some (ctx_ab\<lparr>async_elts := queue_ab\<rparr>)) =
     Inr (None, closes_ab @ cleanups_ab) \<and>
   backend_closes (closes_ab @ cleanups_ab) =
     concat (map (\<lambda>cl. map (\<lambda>n. (st_backend (statfiles ctx_ab ! n), st_bkcf (statfiles ctx_ab ! n)))
                         (cl_statfiles_ids cl))
               (classifiers ctx_ab)) \<and>
   backend_closes (closes_ab @ cleanups_ab) =
     map (\<lambda>st. (st_backend st, st_bkcf st)) (statfiles ctx_ab) \<and>
   backend_closes (closes_ab @ cleanups_ab) =
     [(mmap, Some 100), (mmap, Some 101), (mmap, Some 102)]"
proof -
  have h: "(0::nat) < length (classifiers ctx_ab)" "(1::nat) < length (classifiers ctx_ab)"
    "(2::nat) \<in> set (cl_statfiles_ids (classifiers ctx_ab ! 1))" "(0::nat) \<noteq> 1"
    "(1::nat) < length (statfiles ctx_ab)"
    by (simp_all add: ctx_ab_def classifiers_ab_def statfiles_ab_def)
  have k: "backend_closes (closes_ab @ cleanups_ab) =
     [(mmap, Some 100), (mmap, Some 101), (mmap, Some 102)]"
    by (simp add: closes_ab_def cleanups_ab_def)
  note t = owned_ids_index_own_statfiles [OF boot_ab, of queue_ab]
  from t h have a: "(2::nat) < length (statfiles ctx_ab) \<and>
      st_id (statfiles ctx_ab ! 2) = 2 \<and> st_classifier (statfiles ctx_ab ! 2) = 1"
    by blast
  from t h have b: "set (cl_statfiles_ids (classifiers ctx_ab ! 0)) \<inter>
     set (cl_statfiles_ids (classifiers ctx_ab ! 1)) = {}"
    by blast
  from t have c: "distinct (concat (map cl_statfiles_ids (classifiers ctx_ab)))"
    "\<exists>tr'. rspamd_stat_close (Some ctx_ab) = Inr (None, tr')"
    "concat (map cl_statfiles_ids (classifiers ctx_ab)) = [0..<length (statfiles ctx_ab)]"
    by simp_all
  from t h have d: "st_classifier (statfiles ctx_ab ! 1) < length (classifiers ctx_ab) \<and>
     (1::nat) \<in> set (cl_statfiles_ids (classifiers ctx_ab ! st_classifier (statfiles ctx_ab ! 1)))"
    by blast
  from t close_ab have e: "backend_closes (closes_ab @ cleanups_ab) =
     concat (map (\<lambda>cl. map (\<lambda>n. (st_backend (statfiles ctx_ab ! n), st_bkcf (statfiles ctx_ab ! n)))
                         (cl_statfiles_ids cl))
               (classifiers ctx_ab)) \<and>
   backend_closes (closes_ab @ cleanups_ab) =
     map (\<lambda>st. (st_backend st, st_bkcf st)) (statfiles ctx_ab)"
    by (elim conjE exE) simp
  from boot_ab h a b c d close_ab e k show ?thesis
    by (intro conjI) (elim conjE, assumption)+
qed

end
